theory Spec2Isabelle
  imports Main "HOL-Library.Word" "HOL-Library.Signed_Division" "HOL-Library.Multiset"
begin

unbundle bit_operations_syntax

section \<open>Data model\<close>

text \<open>
  A \<^verbatim>\<open>uint8_t\<close> is an 8-bit word, a \<^verbatim>\<open>vector<uint8_t>\<close> a list of them, a
  \<^verbatim>\<open>std::string\<close> a list of (8-bit) characters and a \<^verbatim>\<open>cpp_int\<close> an unbounded integer.
  Every \<^verbatim>\<open>throw\<close> of the sources is a value of type \<open>error\<close>, carried in the left
  summand of the result.
\<close>

type_synonym byte = "8 word"

datatype error = Invalid_argument string | Runtime_error string | Out_of_range string

text \<open>\<^verbatim>\<open>secp256k1_const::CURVE_ORDER\<close> (secp.cpp).\<close>

definition CURVE_ORDER :: int where
  "CURVE_ORDER = 0xFFFFFFFFFFFFFFFFFFFFFFFFFFFFFFFEBAAEDCE6AF48A03BBFD25E8CD0364141"

text \<open>
  The libraries the repository links against are not part of it: libsecp256k1 (point
  parsing, serialisation and arithmetic on the opaque \<^verbatim>\<open>secp256k1_pubkey\<close>, here the type
  variable \<open>'p\<close>; a call that returns 0 yields \<open>None\<close>), OpenSSL (\<^verbatim>\<open>SHA256\<close>, \<^verbatim>\<open>HMAC\<close>
  with \<^verbatim>\<open>EVP_sha512\<close>) and the extraction \<^verbatim>\<open>stream >> std::hex >> unsigned\<close> of the
  C++ stream library. They are the fields of one record that every function of the
  model receives as its first argument.
\<close>

record 'p externals =
  secp256k1_ec_pubkey_parse :: "byte list \<Rightarrow> 'p option"
  secp256k1_ec_pubkey_serialize :: "'p \<Rightarrow> bool \<Rightarrow> byte list"
  secp256k1_ec_pubkey_create :: "byte list \<Rightarrow> 'p option"
  secp256k1_ec_pubkey_combine :: "'p list \<Rightarrow> 'p option"
  secp256k1_ec_pubkey_tweak_mul :: "'p \<Rightarrow> byte list \<Rightarrow> 'p option"
  secp256k1_pubkey_data :: "'p \<Rightarrow> byte list"
  SHA256 :: "byte list \<Rightarrow> byte list"
  HMAC_SHA512 :: "byte list \<Rightarrow> byte list \<Rightarrow> byte list"
  istream_hex :: "string \<Rightarrow> nat"

text \<open>
  One call of \<^verbatim>\<open>RAND_bytes(buf, 32)\<close>: \<open>None\<close> when it does not return 1, else the 32
  bytes written; and the 32 bytes that the \<^verbatim>\<open>mt19937\<close> generator seeded from
  \<^verbatim>\<open>random_device\<close> would deliver at that moment. A random source is the sequence of
  the draws still to come.
\<close>

record draw =
  RAND_bytes :: "byte list option"
  mt19937_bytes :: "byte list"

type_synonym rng = "nat \<Rightarrow> draw"

record PrivateKey =
  private_key :: int

record PublicKey =
  point_data :: "byte list"
  is_compressed :: bool

section \<open>Bytes, hexadecimal and decimal text\<close>

definition bytes_of_string :: "string \<Rightarrow> byte list" where
  "bytes_of_string s = map (\<lambda>c. of_nat (of_char c)) s"

text \<open>The loop \<^verbatim>\<open>v = (v << 8) + data[i]\<close> of the constructors.\<close>

definition from_be :: "byte list \<Rightarrow> int" where
  "from_be bs = foldl (\<lambda>v b. push_bit 8 v + uint b) 0 bs"

text \<open>
  The loop \<^verbatim>\<open>for (i = k - 1; i >= 0; --i) { out[i] = temp & 0xFF; temp >>= 8; }\<close>.
\<close>

fun to_be :: "nat \<Rightarrow> int \<Rightarrow> byte list" where
  "to_be 0 temp = []"
| "to_be (Suc k) temp = to_be k (drop_bit 8 temp) @ [word_of_int (temp AND 0xFF)]"

definition hex_digit :: "nat \<Rightarrow> char" where
  "hex_digit d = (if d < 10 then char_of (48 + d) else char_of (87 + d))"

definition hex_value :: "char \<Rightarrow> nat option" where
  "hex_value c =
     (let k = (of_char c :: nat) in
      if 48 \<le> k \<and> k \<le> 57 then Some (k - 48)
      else if 97 \<le> k \<and> k \<le> 102 then Some (k - 87)
      else if 65 \<le> k \<and> k \<le> 70 then Some (k - 55)
      else None)"

text \<open>\<^verbatim>\<open>oss << setfill('0') << setw(2) << std::hex << static_cast<int>(byte)\<close> per byte.\<close>

definition bytes_to_hex :: "byte list \<Rightarrow> string" where
  "bytes_to_hex bytes = concat (map (\<lambda>b. [hex_digit (unat b div 16), hex_digit (unat b mod 16)]) bytes)"

fun hex_chunks :: "'p externals \<Rightarrow> string \<Rightarrow> byte list" where
  "hex_chunks E (c # d # rest) = of_nat (istream_hex E [c, d]) # hex_chunks E rest"
| "hex_chunks E [c] = [of_nat (istream_hex E [c])]"
| "hex_chunks E [] = []"

definition hex_to_bytes :: "'p externals \<Rightarrow> string \<Rightarrow> byte list" where
  "hex_to_bytes E hex =
     (let clean_hex = (if take 2 hex = ''0x'' \<or> take 2 hex = ''0X'' then drop 2 hex else hex);
          clean_hex = (if length clean_hex mod 2 \<noteq> 0 then CHR ''0'' # clean_hex else clean_hex)
      in hex_chunks E clean_hex)"

section \<open>PrivateKey (secp.cpp)\<close>

definition is_valid_private_key :: "int \<Rightarrow> bool" where
  "is_valid_private_key v \<longleftrightarrow> v > 0 \<and> v < CURVE_ORDER"

definition validate_key :: "PrivateKey \<Rightarrow> error + PrivateKey" where
  "validate_key k =
     (if \<not> is_valid_private_key (private_key k)
      then Inl (Invalid_argument ''Private key must be in range [1, curve_order)'')
      else Inr k)"

definition PrivateKey_of_bytes :: "byte list \<Rightarrow> error + PrivateKey" where
  "PrivateKey_of_bytes key_data =
     (if length key_data \<noteq> 32
      then Inl (Invalid_argument ''Private key must be exactly 32 bytes'')
      else validate_key \<lparr>private_key = from_be key_data\<rparr>)"

definition PrivateKey_of_int :: "int \<Rightarrow> error + PrivateKey" where
  "PrivateKey_of_int key_value = validate_key \<lparr>private_key = key_value\<rparr>"

definition PrivateKey_of_hex :: "'p externals \<Rightarrow> string \<Rightarrow> error + PrivateKey" where
  "PrivateKey_of_hex E hex_string =
     (let key_data = hex_to_bytes E hex_string in
      if length key_data \<noteq> 32
      then Inl (Invalid_argument ''Private key hex must represent exactly 32 bytes'')
      else validate_key \<lparr>private_key = from_be key_data\<rparr>)"

text \<open>
  \<^verbatim>\<open>secp_utils::generate_random_key\<close>: when \<^verbatim>\<open>RAND_bytes\<close> fails, the buffer is filled
  from the \<^verbatim>\<open>mt19937\<close> generator and the key is built from it all the same.
\<close>

definition generate_random_key :: "draw \<Rightarrow> error + PrivateKey" where
  "generate_random_key d =
     (let random_bytes = (case RAND_bytes d of Some bs \<Rightarrow> bs | None \<Rightarrow> mt19937_bytes d)
      in PrivateKey_of_bytes random_bytes)"

text \<open>The default constructor \<^verbatim>\<open>PrivateKey()\<close>: it takes the next draw of the source.\<close>

definition PrivateKey_random :: "rng \<Rightarrow> (error + PrivateKey) \<times> rng" where
  "PrivateKey_random r = (generate_random_key (r 0), (\<lambda>i. r (Suc i)))"

definition serialize_key :: "PrivateKey \<Rightarrow> byte list" where
  "serialize_key k = to_be 32 (private_key k)"

definition key_to_hex :: "PrivateKey \<Rightarrow> string" where
  "key_to_hex k = bytes_to_hex (serialize_key k)"

text \<open>\<^verbatim>\<open>%\<close> on \<^verbatim>\<open>cpp_int\<close> truncates towards zero: it is \<open>smod\<close>.\<close>

definition key_tweak_add :: "PrivateKey \<Rightarrow> int \<Rightarrow> error + PrivateKey" where
  "key_tweak_add k scalar = PrivateKey_of_int ((private_key k + scalar) smod CURVE_ORDER)"

definition key_tweak_mul :: "PrivateKey \<Rightarrow> int \<Rightarrow> error + PrivateKey" where
  "key_tweak_mul k scalar = PrivateKey_of_int ((private_key k * scalar) smod CURVE_ORDER)"

section \<open>PublicKey (secp.cpp)\<close>

definition and_then :: "error + 'a \<Rightarrow> ('a \<Rightarrow> error + 'b) \<Rightarrow> error + 'b" where
  "and_then m f = (case m of Inl e \<Rightarrow> Inl e | Inr x \<Rightarrow> f x)"

definition validate_point :: "'p externals \<Rightarrow> PublicKey \<Rightarrow> error + PublicKey" where
  "validate_point E P =
     (case secp256k1_ec_pubkey_parse E (point_data P) of
        None \<Rightarrow> Inl (Invalid_argument ''Invalid public key point'')
      | Some pk \<Rightarrow> Inr P)"

definition init_from_data :: "'p externals \<Rightarrow> byte list \<Rightarrow> bool \<Rightarrow> error + PublicKey" where
  "init_from_data E data raw =
     (if raw then
        (if length data \<noteq> 64
         then Inl (Invalid_argument ''Raw public key data must be exactly 64 bytes'')
         else validate_point E \<lparr>point_data = 0x04 # data, is_compressed = False\<rparr>)
      else if length data = 33 \<and> (data ! 0 = 0x02 \<or> data ! 0 = 0x03) then
        validate_point E \<lparr>point_data = data, is_compressed = True\<rparr>
      else if length data = 65 \<and> data ! 0 = 0x04 then
        validate_point E \<lparr>point_data = data, is_compressed = False\<rparr>
      else Inl (Invalid_argument ''Invalid public key format''))"

text \<open>\<^verbatim>\<open>PublicKey(point_data, raw)\<close>, \<^verbatim>\<open>raw\<close> being false when omitted, and \<^verbatim>\<open>PublicKey(hex)\<close>.\<close>

definition PublicKey_of_bytes :: "'p externals \<Rightarrow> byte list \<Rightarrow> bool \<Rightarrow> error + PublicKey" where
  "PublicKey_of_bytes E data raw = init_from_data E data raw"

definition PublicKey_of_hex :: "'p externals \<Rightarrow> string \<Rightarrow> error + PublicKey" where
  "PublicKey_of_hex E hex_string = init_from_data E (hex_to_bytes E hex_string) False"

definition pubkey :: "'p externals \<Rightarrow> PrivateKey \<Rightarrow> error + PublicKey" where
  "pubkey E k =
     (let privkey_bytes = to_be 32 (private_key k) in
      case secp256k1_ec_pubkey_create E privkey_bytes of
        None \<Rightarrow> Inl (Runtime_error ''Failed to create public key from private key'')
      | Some pk \<Rightarrow> PublicKey_of_bytes E (secp256k1_ec_pubkey_serialize E pk True) False)"

definition serialize :: "'p externals \<Rightarrow> PublicKey \<Rightarrow> bool \<Rightarrow> error + byte list" where
  "serialize E P compressed =
     (case secp256k1_ec_pubkey_parse E (point_data P) of
        None \<Rightarrow> Inl (Runtime_error ''Failed to parse public key for serialization'')
      | Some pk \<Rightarrow> Inr (secp256k1_ec_pubkey_serialize E pk compressed))"

definition to_hex :: "'p externals \<Rightarrow> PublicKey \<Rightarrow> bool \<Rightarrow> error + string" where
  "to_hex E P compressed = and_then (serialize E P compressed) (\<lambda>bytes. Inr (bytes_to_hex bytes))"

definition to_data :: "'p externals \<Rightarrow> PublicKey \<Rightarrow> error + byte list" where
  "to_data E P =
     (case secp256k1_ec_pubkey_parse E (point_data P) of
        None \<Rightarrow> Inl (Runtime_error ''Failed to parse public key for to_data()'')
      | Some pk \<Rightarrow> Inr (secp256k1_pubkey_data E pk))"

text \<open>\<^verbatim>\<open>operator==\<close>.\<close>

definition pk_eq :: "'p externals \<Rightarrow> PublicKey \<Rightarrow> PublicKey \<Rightarrow> error + bool" where
  "pk_eq E P other =
     and_then (to_data E P) (\<lambda>data1. and_then (to_data E other) (\<lambda>data2. Inr (data1 = data2)))"

text \<open>\<^verbatim>\<open>operator+\<close>.\<close>

definition pk_add :: "'p externals \<Rightarrow> PublicKey \<Rightarrow> PublicKey \<Rightarrow> error + PublicKey" where
  "pk_add E P other =
     (case secp256k1_ec_pubkey_parse E (point_data P) of
        None \<Rightarrow> Inl (Runtime_error ''Failed to parse public keys for addition'')
      | Some pubkey1 \<Rightarrow>
     (case secp256k1_ec_pubkey_parse E (point_data other) of
        None \<Rightarrow> Inl (Runtime_error ''Failed to parse public keys for addition'')
      | Some pubkey2 \<Rightarrow>
     (case secp256k1_ec_pubkey_combine E [pubkey1, pubkey2] of
        None \<Rightarrow> Inl (Runtime_error ''Failed to combine public keys'')
      | Some result \<Rightarrow> PublicKey_of_bytes E (secp256k1_ec_pubkey_serialize E result True) False)))"

text \<open>Unary \<^verbatim>\<open>operator-\<close>: the parity byte of the compressed form is flipped.\<close>

definition pk_neg :: "'p externals \<Rightarrow> PublicKey \<Rightarrow> error + PublicKey" where
  "pk_neg E P =
     and_then (serialize E P True) (\<lambda>serialized.
       if length serialized = 33 then
         (if serialized ! 0 = 0x02 then PublicKey_of_bytes E (serialized[0 := 0x03]) False
          else if serialized ! 0 = 0x03 then PublicKey_of_bytes E (serialized[0 := 0x02]) False
          else Inl (Runtime_error ''Invalid compressed public key format for negation''))
       else PublicKey_of_bytes E serialized False)"

text \<open>Binary \<^verbatim>\<open>operator-\<close>.\<close>

definition pk_sub :: "'p externals \<Rightarrow> PublicKey \<Rightarrow> PublicKey \<Rightarrow> error + PublicKey" where
  "pk_sub E P other = and_then (pk_neg E other) (\<lambda>negated. pk_add E P negated)"

definition tweak_mul :: "'p externals \<Rightarrow> PublicKey \<Rightarrow> int \<Rightarrow> error + PublicKey" where
  "tweak_mul E P scalar =
     (let scalar_bytes = to_be 32 (scalar smod CURVE_ORDER) in
      case secp256k1_ec_pubkey_parse E (point_data P) of
        None \<Rightarrow> Inl (Runtime_error ''Failed to parse public key for multiplication'')
      | Some pk \<Rightarrow>
     (case secp256k1_ec_pubkey_tweak_mul E pk scalar_bytes of
        None \<Rightarrow> Inl (Runtime_error ''Failed to multiply public key by scalar'')
      | Some result \<Rightarrow> PublicKey_of_bytes E (secp256k1_ec_pubkey_serialize E result True) False))"

definition mult :: "'p externals \<Rightarrow> PublicKey \<Rightarrow> PrivateKey \<Rightarrow> error + PublicKey" where
  "mult E P scalar = tweak_mul E P (private_key scalar)"

section \<open>Hash-to-curve and the BDHKE protocol (b\_dhke.cpp)\<close>

definition DOMAIN_SEPARATOR :: "byte list" where
  "DOMAIN_SEPARATOR =
     [0x53, 0x65, 0x63, 0x70, 0x32, 0x35, 0x36, 0x6b, 0x31, 0x5f, 0x48, 0x61,
      0x73, 0x68, 0x54, 0x6f, 0x43, 0x75, 0x72, 0x76, 0x65, 0x5f, 0x43, 0x61,
      0x73, 0x68, 0x75, 0x5f]"

definition sha256 :: "'p externals \<Rightarrow> byte list \<Rightarrow> byte list" where
  "sha256 E data = SHA256 E data"

definition uint32_to_le_bytes :: "32 word \<Rightarrow> byte list" where
  "uint32_to_le_bytes v =
     [ucast (v AND 0xFF), ucast (drop_bit 8 v AND 0xFF),
      ucast (drop_bit 16 v AND 0xFF), ucast (drop_bit 24 v AND 0xFF)]"

definition concat_vectors :: "byte list \<Rightarrow> byte list \<Rightarrow> byte list" where
  "concat_vectors a b = a @ b"

text \<open>
  The \<^verbatim>\<open>while (counter < (1 << 16))\<close> loop of \<^verbatim>\<open>hash_to_curve\<close>, from the current value
  of \<^verbatim>\<open>counter\<close>. The \<^verbatim>\<open>catch (const exception&)\<close> takes every error of the constructor.
\<close>

function hash_to_curve_loop :: "'p externals \<Rightarrow> byte list \<Rightarrow> 32 word \<Rightarrow> error + PublicKey" where
  "hash_to_curve_loop E msg_to_hash counter =
     (if counter < 65536 then
        (let counter_bytes = uint32_to_le_bytes counter;
             hash_input = concat_vectors msg_to_hash counter_bytes;
             hash_output = sha256 E hash_input
         in case PublicKey_of_bytes E (0x02 # hash_output) False of
              Inr P \<Rightarrow> Inr P
            | Inl e \<Rightarrow> hash_to_curve_loop E msg_to_hash (counter + 1))
      else Inl (Runtime_error ''No valid point found after 2^16 iterations''))"
  by pat_completeness auto
termination
  by (relation "measure (\<lambda>(E, m, c). 65536 - unat c)")
     (auto simp: word_less_nat_alt unat_word_ariths)

declare hash_to_curve_loop.simps [simp del]

definition hash_to_curve :: "'p externals \<Rightarrow> byte list \<Rightarrow> error + PublicKey" where
  "hash_to_curve E message =
     (let domain_and_message = concat_vectors DOMAIN_SEPARATOR message;
          msg_to_hash = sha256 E domain_and_message
      in hash_to_curve_loop E msg_to_hash 0)"

definition hash_to_curve_string :: "'p externals \<Rightarrow> string \<Rightarrow> error + PublicKey" where
  "hash_to_curve_string E message = hash_to_curve E (bytes_of_string message)"

text \<open>
  The \<^verbatim>\<open>while (true)\<close> loop of \<^verbatim>\<open>hash_to_curve_deprecated\<close> has no bound: the value
  \<open>None\<close> stands for a run that never returns.
\<close>

partial_function (option) hash_to_curve_deprecated :: "'p externals \<Rightarrow> byte list \<Rightarrow> PublicKey option" where
  "hash_to_curve_deprecated E msg_to_hash =
     (case PublicKey_of_bytes E (0x02 # sha256 E msg_to_hash) False of
        Inr P \<Rightarrow> Some P
      | Inl e \<Rightarrow> hash_to_curve_deprecated E (sha256 E msg_to_hash))"

declare hash_to_curve_deprecated.simps [code]

definition step1_alice ::
  "'p externals \<Rightarrow> rng \<Rightarrow> string \<Rightarrow> PrivateKey option \<Rightarrow> error + PublicKey \<times> PrivateKey" where
  "step1_alice E rnd secret_msg blinding_factor =
     and_then (hash_to_curve_string E secret_msg) (\<lambda>Y.
     and_then (case blinding_factor of Some bf \<Rightarrow> Inr bf | None \<Rightarrow> fst (PrivateKey_random rnd)) (\<lambda>r.
     and_then (pubkey E r) (\<lambda>rG.
     and_then (pk_add E Y rG) (\<lambda>B'. Inr (B', r)))))"

definition hash_e ::
  "'p externals \<Rightarrow> PublicKey \<Rightarrow> PublicKey \<Rightarrow> PublicKey \<Rightarrow> PublicKey \<Rightarrow> error + byte list" where
  "hash_e E R1 R2 A C' =
     and_then (to_hex E R1 False) (\<lambda>h1.
     and_then (to_hex E R2 False) (\<lambda>h2.
     and_then (to_hex E A False) (\<lambda>h3.
     and_then (to_hex E C' False) (\<lambda>h4.
       Inr (sha256 E (bytes_of_string (h1 @ h2 @ h3 @ h4)))))))"

text \<open>
  The declaration \<^verbatim>\<open>PrivateKey p;\<close> runs the default constructor, so one draw is taken
  (and may throw) before \<^verbatim>\<open>p_bytes\<close> is looked at.
\<close>

definition step2_bob_dleq ::
  "'p externals \<Rightarrow> rng \<Rightarrow> PublicKey \<Rightarrow> PrivateKey \<Rightarrow> byte list \<Rightarrow> error + PrivateKey \<times> PrivateKey" where
  "step2_bob_dleq E rnd B' a p_bytes =
     (case PrivateKey_random rnd of (p0, rnd1) \<Rightarrow>
     and_then p0 (\<lambda>p0.
     and_then (if p_bytes \<noteq> [] then PrivateKey_of_bytes p_bytes else fst (PrivateKey_random rnd1)) (\<lambda>p.
     and_then (pubkey E p) (\<lambda>R1.
     and_then (mult E B' p) (\<lambda>R2.
     and_then (mult E B' a) (\<lambda>C'.
     and_then (pubkey E a) (\<lambda>A.
     and_then (hash_e E R1 R2 A C') (\<lambda>e_bytes.
     and_then (PrivateKey_of_bytes e_bytes) (\<lambda>e.
     and_then (key_tweak_mul a (private_key e)) (\<lambda>a_times_e.
     and_then (key_tweak_add p (private_key a_times_e)) (\<lambda>s. Inr (e, s))))))))))))"

text \<open>\<^verbatim>\<open>step2_bob\<close> calls \<^verbatim>\<open>step2_bob_dleq(B_, a)\<close>, that is with no \<^verbatim>\<open>p_bytes\<close>.\<close>

definition step2_bob ::
  "'p externals \<Rightarrow> rng \<Rightarrow> PublicKey \<Rightarrow> PrivateKey \<Rightarrow> error + PublicKey \<times> PrivateKey \<times> PrivateKey" where
  "step2_bob E rnd B' a =
     and_then (mult E B' a) (\<lambda>C'.
     and_then (step2_bob_dleq E rnd B' a []) (\<lambda>(e, s). Inr (C', e, s)))"

definition step3_alice :: "'p externals \<Rightarrow> PublicKey \<Rightarrow> PrivateKey \<Rightarrow> PublicKey \<Rightarrow> error + PublicKey" where
  "step3_alice E C' r A = and_then (mult E A r) (\<lambda>r_times_A. pk_sub E C' r_times_A)"

definition verify_deprecated ::
  "'p externals \<Rightarrow> PrivateKey \<Rightarrow> PublicKey \<Rightarrow> string \<Rightarrow> (error + bool) option" where
  "verify_deprecated E a C secret_msg =
     (case hash_to_curve_deprecated E (bytes_of_string secret_msg) of
        None \<Rightarrow> None
      | Some Y \<Rightarrow> Some (and_then (mult E Y a) (\<lambda>a_times_Y. pk_eq E C a_times_Y)))"

definition verify ::
  "'p externals \<Rightarrow> PrivateKey \<Rightarrow> PublicKey \<Rightarrow> string \<Rightarrow> (error + bool) option" where
  "verify E a C secret_msg =
     (case and_then (hash_to_curve_string E secret_msg) (\<lambda>Y.
           and_then (mult E Y a) (\<lambda>a_times_Y. pk_eq E C a_times_Y)) of
        Inl e \<Rightarrow> Some (Inl e)
      | Inr valid \<Rightarrow> if \<not> valid then verify_deprecated E a C secret_msg else Some (Inr valid))"

definition alice_verify_dleq ::
  "'p externals \<Rightarrow> PublicKey \<Rightarrow> PublicKey \<Rightarrow> PrivateKey \<Rightarrow> PrivateKey \<Rightarrow> PublicKey \<Rightarrow> error + bool" where
  "alice_verify_dleq E B' C' e s A =
     and_then (pubkey E s) (\<lambda>s_times_G.
     and_then (mult E A e) (\<lambda>e_times_A.
     and_then (pk_sub E s_times_G e_times_A) (\<lambda>R1.
     and_then (mult E B' s) (\<lambda>s_times_B'.
     and_then (mult E C' e) (\<lambda>e_times_C'.
     and_then (pk_sub E s_times_B' e_times_C') (\<lambda>R2.
     and_then (hash_e E R1 R2 A C') (\<lambda>computed_e.
       Inr (computed_e = serialize_key e))))))))"

definition carol_verify_dleq_deprecated ::
  "'p externals \<Rightarrow> string \<Rightarrow> PrivateKey \<Rightarrow> PublicKey \<Rightarrow> PrivateKey \<Rightarrow> PrivateKey \<Rightarrow> PublicKey
     \<Rightarrow> (error + bool) option" where
  "carol_verify_dleq_deprecated E secret_msg r C e s A =
     (case hash_to_curve_deprecated E (bytes_of_string secret_msg) of
        None \<Rightarrow> None
      | Some Y \<Rightarrow> Some (
          and_then (mult E A r) (\<lambda>r_times_A.
          and_then (pk_add E C r_times_A) (\<lambda>C'.
          and_then (pubkey E r) (\<lambda>r_times_G.
          and_then (pk_add E Y r_times_G) (\<lambda>B'. alice_verify_dleq E B' C' e s A))))))"

definition carol_verify_dleq ::
  "'p externals \<Rightarrow> string \<Rightarrow> PrivateKey \<Rightarrow> PublicKey \<Rightarrow> PrivateKey \<Rightarrow> PrivateKey \<Rightarrow> PublicKey
     \<Rightarrow> (error + bool) option" where
  "carol_verify_dleq E secret_msg r C e s A =
     (case and_then (hash_to_curve_string E secret_msg) (\<lambda>Y.
           and_then (mult E A r) (\<lambda>r_times_A.
           and_then (pk_add E C r_times_A) (\<lambda>C'.
           and_then (pubkey E r) (\<lambda>r_times_G.
           and_then (pk_add E Y r_times_G) (\<lambda>B'. alice_verify_dleq E B' C' e s A))))) of
        Inl err \<Rightarrow> Some (Inl err)
      | Inr valid \<Rightarrow>
          if \<not> valid then carol_verify_dleq_deprecated E secret_msg r C e s A
          else Some (Inr valid))"

section \<open>Key derivation (keys.cpp)\<close>






























text \<open>
  \<^verbatim>\<open>derive_keyset_id\<close>. Its argument is an \<^verbatim>\<open>unordered_map\<close>: the list of its entries in
  the order in which the container iterates, the amounts pairwise distinct. \<^verbatim>\<open>std::sort\<close>
  orders the pairs by amount; with distinct amounts the comparison of the points is
  never reached.
\<close>

fun concat_serialized :: "'p externals \<Rightarrow> (int \<times> PublicKey) list \<Rightarrow> error + byte list" where
  "concat_serialized E [] = Inr []"
| "concat_serialized E ((amount, pk) # rest) =
     and_then (serialize E pk True) (\<lambda>serialized.
     and_then (concat_serialized E rest) (\<lambda>pubkeys_concat. Inr (serialized @ pubkeys_concat)))"

definition derive_keyset_id :: "'p externals \<Rightarrow> (int \<times> PublicKey) list \<Rightarrow> error + string" where
  "derive_keyset_id E keys =
     (let sorted_keys = sort_key fst keys in
      and_then (concat_serialized E sorted_keys) (\<lambda>pubkeys_concat.
        let hash = sha256 E pubkeys_concat;
            hex_hash = bytes_to_hex hash
        in Inr (''00'' @ take 14 hex_hash)))"

text \<open>
  The hash-to-curve mapping as the specification words it: the little-endian four bytes
  of a counter, the candidate \<open>0x02 \<parallel> SHA256(SHA256(DOMAIN_SEPARATOR \<parallel> m) \<parallel> counter)\<close>, and
  whether 33 bytes are the compressed form of a point of the curve.
\<close>

definition le32 :: "nat \<Rightarrow> byte list" where
  "le32 c = [of_nat (c mod 256), of_nat (c div 256 mod 256),
             of_nat (c div 65536 mod 256), of_nat (c div 16777216 mod 256)]"

definition yields_point :: "'p externals \<Rightarrow> byte list \<Rightarrow> bool" where
  "yields_point E bs \<longleftrightarrow> length bs = 33 \<and> secp256k1_ec_pubkey_parse E bs \<noteq> None"

definition candidate :: "'p externals \<Rightarrow> byte list \<Rightarrow> nat \<Rightarrow> byte list" where
  "candidate E m c = 0x02 # SHA256 E (SHA256 E (DOMAIN_SEPARATOR @ m) @ le32 c)"

section \<open>What is assumed of the libraries\<close>

text \<open>
  The points that libsecp256k1 handles (a \<^verbatim>\<open>secp256k1_pubkey\<close> is never the point at
  infinity) form, with that point, a cyclic group of order \<open>CURVE_ORDER\<close> generated by
  \<open>G\<close>. The contract states this through the discrete logarithm \<open>dl P\<close> of a point to
  the base \<open>G\<close>, a number from \<open>1\<close> to \<open>CURVE_ORDER - 1\<close>, and the point \<open>pt k\<close> of
  logarithm \<open>k\<close>:
  \<^item> \<^verbatim>\<open>secp256k1_ec_pubkey_create\<close> accepts the 32-byte scalars from \<open>1\<close> to
    \<open>CURVE_ORDER - 1\<close> and returns \<open>k\<cdot>G\<close>;
  \<^item> \<^verbatim>\<open>secp256k1_ec_pubkey_combine\<close> adds two points and fails when the sum is the
    point at infinity;
  \<^item> \<^verbatim>\<open>secp256k1_ec_pubkey_tweak_mul\<close> multiplies a point by such a scalar (and
    fails should the product be the point at infinity);
  \<^item> a serialised point parses to the same point, the serialisation depends on the
    point only, the compressed form has 33 bytes and begins with 2 or 3, and the
    compressed forms of a point and its inverse differ in this first byte only;
  \<^item> two points have the same 64 bytes of \<^verbatim>\<open>data\<close> exactly when they are equal.
\<close>

definition secp256k1_spec :: "'p externals \<Rightarrow> ('p \<Rightarrow> int) \<Rightarrow> (int \<Rightarrow> 'p) \<Rightarrow> bool" where
  "secp256k1_spec E dl pt \<longleftrightarrow>
     (\<forall>P. 0 < dl P \<and> dl P < CURVE_ORDER) \<and>
     (\<forall>k. 0 < k \<and> k < CURVE_ORDER \<longrightarrow> dl (pt k) = k) \<and>
     (\<forall>bs. secp256k1_ec_pubkey_create E bs =
        (if length bs = 32 \<and> 0 < from_be bs \<and> from_be bs < CURVE_ORDER
         then Some (pt (from_be bs)) else None)) \<and>
     (\<forall>P Q. secp256k1_ec_pubkey_combine E [P, Q] =
        (if (dl P + dl Q) mod CURVE_ORDER = 0 then None
         else Some (pt ((dl P + dl Q) mod CURVE_ORDER)))) \<and>
     (\<forall>P bs. secp256k1_ec_pubkey_tweak_mul E P bs =
        (if length bs = 32 \<and> 0 < from_be bs \<and> from_be bs < CURVE_ORDER
            \<and> (from_be bs * dl P) mod CURVE_ORDER \<noteq> 0
         then Some (pt ((from_be bs * dl P) mod CURVE_ORDER)) else None)) \<and>
     (\<forall>P c. secp256k1_ec_pubkey_parse E (secp256k1_ec_pubkey_serialize E P c) = Some (pt (dl P))) \<and>
     (\<forall>P Q c. dl P = dl Q \<longrightarrow>
        secp256k1_ec_pubkey_serialize E P c = secp256k1_ec_pubkey_serialize E Q c) \<and>
     (\<forall>P. length (secp256k1_ec_pubkey_serialize E P True) = 33
        \<and> (secp256k1_ec_pubkey_serialize E P True ! 0 = 0x02
           \<or> secp256k1_ec_pubkey_serialize E P True ! 0 = 0x03)) \<and>
     (\<forall>P Q. dl P + dl Q = CURVE_ORDER \<longrightarrow>
        secp256k1_ec_pubkey_serialize E Q True =
          (secp256k1_ec_pubkey_serialize E P True)
            [0 := (if secp256k1_ec_pubkey_serialize E P True ! 0 = 0x02 then 0x03 else 0x02)]) \<and>
     (\<forall>P Q. secp256k1_pubkey_data E P = secp256k1_pubkey_data E Q \<longleftrightarrow> dl P = dl Q)"


text \<open>Extracting a hexadecimal number from a text of two hexadecimal digits gives their value.\<close>

definition istream_hex_spec :: "'p externals \<Rightarrow> bool" where
  "istream_hex_spec E \<longleftrightarrow>
     (\<forall>c d a b. hex_value c = Some a \<and> hex_value d = Some b \<longrightarrow> istream_hex E [c, d] = 16 * a + b)"

text \<open>
  A \<^verbatim>\<open>PublicKey\<close> object exists only once its constructor has parsed its bytes, a
  \<^verbatim>\<open>PrivateKey\<close> object only once \<^verbatim>\<open>validate_key\<close> has passed.
\<close>

definition valid_point :: "'p externals \<Rightarrow> PublicKey \<Rightarrow> bool" where
  "valid_point E P \<longleftrightarrow> secp256k1_ec_pubkey_parse E (point_data P) \<noteq> None"

definition valid_scalar :: "PrivateKey \<Rightarrow> bool" where
  "valid_scalar k \<longleftrightarrow> is_valid_private_key (private_key k)"

text \<open>
  Two notions for stating properties: the \<^verbatim>\<open>PublicKey\<close> object that the operations build
  from a point of the library (its compressed form), and the discrete logarithm of the
  point that an object holds.
\<close>

definition compressed_key :: "'p externals \<Rightarrow> 'p \<Rightarrow> PublicKey" where
  "compressed_key E p = \<lparr>point_data = secp256k1_ec_pubkey_serialize E p True, is_compressed = True\<rparr>"

definition pk_dl :: "'p externals \<Rightarrow> ('p \<Rightarrow> int) \<Rightarrow> PublicKey \<Rightarrow> int" where
  "pk_dl E dl P = (case secp256k1_ec_pubkey_parse E (point_data P) of Some p \<Rightarrow> dl p | None \<Rightarrow> 0)"

section \<open>An instance of the libraries\<close>

text \<open>
  The integers modulo \<open>CURVE_ORDER\<close> under addition are a cyclic group of that order
  generated by \<open>1\<close>; a point other than zero is its own logarithm. Its compressed form
  is the byte 2 or 3 (the smaller or the larger of \<open>k\<close> and \<open>CURVE_ORDER - k\<close>) followed
  by the smaller of the two in 32 bytes. The hash functions of the instance add up the
  bytes of their input. The instance shows that the assumptions above can be met
  together; the theorems are applied to it at concrete inputs.
\<close>

definition zn_dl :: "int \<Rightarrow> int" where
  "zn_dl k = (k - 1) mod (CURVE_ORDER - 1) + 1"

definition zn_pt :: "int \<Rightarrow> int" where
  "zn_pt k = k"

definition zn_serialize :: "int \<Rightarrow> bool \<Rightarrow> byte list" where
  "zn_serialize P compressed =
     (if compressed
      then (if 2 * zn_dl P < CURVE_ORDER then 0x02 else 0x03)
             # to_be 32 (min (zn_dl P) (CURVE_ORDER - zn_dl P))
      else 0x04 # to_be 32 (min (zn_dl P) (CURVE_ORDER - zn_dl P)) @ to_be 32 (zn_dl P))"

definition zn_parse :: "byte list \<Rightarrow> int option" where
  "zn_parse bs =
     (if length bs = 33 \<and> (bs ! 0 = 0x02 \<or> bs ! 0 = 0x03) then
        (if 0 < from_be (drop 1 bs) \<and> 2 * from_be (drop 1 bs) < CURVE_ORDER
         then Some (if bs ! 0 = 0x02 then from_be (drop 1 bs) else CURVE_ORDER - from_be (drop 1 bs))
         else None)
      else if length bs = 65 \<and> bs ! 0 = 0x04 then
        (if 0 < from_be (drop 33 bs) \<and> from_be (drop 33 bs) < CURVE_ORDER
            \<and> from_be (take 32 (drop 1 bs))
                = min (from_be (drop 33 bs)) (CURVE_ORDER - from_be (drop 33 bs))
         then Some (from_be (drop 33 bs)) else None)
      else None)"

definition zn_create :: "byte list \<Rightarrow> int option" where
  "zn_create bs =
     (if length bs = 32 \<and> 0 < from_be bs \<and> from_be bs < CURVE_ORDER then Some (from_be bs)
      else None)"

definition zn_combine :: "int list \<Rightarrow> int option" where
  "zn_combine Ps =
     (if Ps = [] \<or> sum_list (map zn_dl Ps) mod CURVE_ORDER = 0 then None
      else Some (sum_list (map zn_dl Ps) mod CURVE_ORDER))"

definition zn_tweak_mul :: "int \<Rightarrow> byte list \<Rightarrow> int option" where
  "zn_tweak_mul P bs =
     (if length bs = 32 \<and> 0 < from_be bs \<and> from_be bs < CURVE_ORDER
         \<and> (from_be bs * zn_dl P) mod CURVE_ORDER \<noteq> 0
      then Some ((from_be bs * zn_dl P) mod CURVE_ORDER) else None)"

definition zn_data :: "int \<Rightarrow> byte list" where
  "zn_data P = to_be 32 (min (zn_dl P) (CURVE_ORDER - zn_dl P)) @ to_be 32 (zn_dl P)"

definition zn_sha256 :: "byte list \<Rightarrow> byte list" where
  "zn_sha256 m = to_be 32 (sum_list (map uint m) mod 5)"

definition zn_hmac_sha512 :: "byte list \<Rightarrow> byte list \<Rightarrow> byte list" where
  "zn_hmac_sha512 key data = to_be 64 (sum_list (map uint (key @ data)))"

definition zn_istream_hex :: "string \<Rightarrow> nat" where
  "zn_istream_hex s =
     (case map hex_value s of [Some a, Some b] \<Rightarrow> 16 * a + b | [Some a] \<Rightarrow> a | _ \<Rightarrow> 0)"

definition Zn :: "int externals" where
  "Zn = \<lparr>secp256k1_ec_pubkey_parse = zn_parse,
         secp256k1_ec_pubkey_serialize = zn_serialize,
         secp256k1_ec_pubkey_create = zn_create,
         secp256k1_ec_pubkey_combine = zn_combine,
         secp256k1_ec_pubkey_tweak_mul = zn_tweak_mul,
         secp256k1_pubkey_data = zn_data,
         SHA256 = zn_sha256,
         HMAC_SHA512 = zn_hmac_sha512,
         istream_hex = zn_istream_hex\<rparr>"

text \<open>
  The \<^verbatim>\<open>PublicKey\<close> object of the point \<open>k\<close> of the instance, and the random source
  whose every draw succeeds with the scalar \<open>k\<close>.
\<close>

definition zn_point :: "int \<Rightarrow> PublicKey" where
  "zn_point k = \<lparr>point_data = zn_serialize k True, is_compressed = True\<rparr>"

definition fixed_rng :: "int \<Rightarrow> rng" where
  "fixed_rng k = (\<lambda>i. \<lparr>RAND_bytes = Some (to_be 32 k), mt19937_bytes = []\<rparr>)"

section \<open>Scalar construction\<close>

lemma from_be_snoc: "from_be (bs @ [b]) = from_be bs * 256 + uint b"
  by (simp add: from_be_def push_bit_eq_mult)


lemma length_to_be: "length (to_be k t) = k"
  by (induction k arbitrary: t) simp_all

lemma uint_byte: "0 \<le> uint (b::byte) \<and> uint b < 256"
  using uint_bounded [of b] by simp

lemma to_be_from_be: "to_be (length bs) (from_be bs) = bs"
proof (induction bs rule: rev_induct)
  case Nil
  show ?case by simp
next
  case (snoc b bs)
  have lo: "(from_be bs * 256 + uint b) AND 0xFF = uint b"
  proof -
    have m: "(0xFF::int) = mask 8"
      by (simp add: mask_eq_exp_minus_1)
    have "(from_be bs * 256 + uint b) AND 0xFF = (from_be bs * 256 + uint b) mod 256"
      unfolding m by (simp add: take_bit_eq_mask [symmetric] take_bit_eq_mod)
    also have "\<dots> = uint b"
      using uint_byte [of b] by simp
    finally show ?thesis .
  qed
  have hi: "drop_bit 8 (from_be bs * 256 + uint b) = from_be bs"
    using uint_byte [of b] by (simp add: drop_bit_eq_div)
  show ?case
    by (simp add: from_be_snoc lo hi snoc.IH)
qed

lemma hex_value_hex_digit: "d < 16 \<Longrightarrow> hex_value (hex_digit d) = Some d"
  by (auto simp: hex_value_def hex_digit_def Let_def)

lemma hex_chunks_bytes_to_hex:
  assumes "istream_hex_spec E"
  shows "hex_chunks E (bytes_to_hex bs) = bs"
proof (induction bs)
  case Nil
  show ?case by (simp add: bytes_to_hex_def)
next
  case (Cons b bs)
  have hi: "unat b div 16 < 16" using unsigned_less [of b, where ?'a = nat] by simp
  have lo: "unat b mod 16 < 16" by simp
  have "istream_hex E [hex_digit (unat b div 16), hex_digit (unat b mod 16)]
          = 16 * (unat b div 16) + unat b mod 16"
    using assms hex_value_hex_digit [OF hi] hex_value_hex_digit [OF lo]
    unfolding istream_hex_spec_def by blast
  then have "istream_hex E [hex_digit (unat b div 16), hex_digit (unat b mod 16)] = unat b"
    by simp
  with Cons show ?case
    by (simp add: bytes_to_hex_def)
qed

lemma length_bytes_to_hex: "length (bytes_to_hex bs) = 2 * length bs"
  by (induction bs) (simp_all add: bytes_to_hex_def)

lemma bytes_to_hex_no_prefix:
  "take 2 (bytes_to_hex bs) \<noteq> ''0x'' \<and> take 2 (bytes_to_hex bs) \<noteq> ''0X''"
proof (cases bs)
  case Nil
  then show ?thesis by (simp add: bytes_to_hex_def)
next
  case (Cons b rest)
  have lo: "unat b mod 16 < 16" by simp
  have "hex_value (hex_digit (unat b mod 16)) = Some (unat b mod 16)"
    by (rule hex_value_hex_digit [OF lo])
  moreover have "hex_value CHR ''x'' = None" "hex_value CHR ''X'' = None"
    by (simp_all add: hex_value_def)
  ultimately have "hex_digit (unat b mod 16) \<noteq> CHR ''x'' \<and> hex_digit (unat b mod 16) \<noteq> CHR ''X''"
    by auto
  with Cons show ?thesis by (simp add: bytes_to_hex_def)
qed

lemma hex_to_bytes_bytes_to_hex:
  assumes "istream_hex_spec E"
  shows "hex_to_bytes E (bytes_to_hex bs) = bs"
  using bytes_to_hex_no_prefix [of bs]
  by (simp add: hex_to_bytes_def length_bytes_to_hex hex_chunks_bytes_to_hex [OF assms])

lemma curve_order_pos: "1 < CURVE_ORDER"
  by (simp add: CURVE_ORDER_def)

lemma zn_istream_hex_spec: "istream_hex_spec Zn"
  by (simp add: istream_hex_spec_def Zn_def zn_istream_hex_def)

text \<open>
  Claim C7. For a 32-byte input, the constructor from bytes succeeds exactly when the
  big-endian value of the bytes lies from 1 to \<open>CURVE_ORDER - 1\<close>, and fails with
  \<^verbatim>\<open>invalid_argument\<close> otherwise; the constructors from the hexadecimal text of the
  bytes and from their value as a big integer do the same. The value
  \<open>CURVE_ORDER - 1\<close> is accepted, the values 0 and \<open>CURVE_ORDER\<close> and above are refused.
\<close>

theorem PrivateKey_range:
  assumes "length bs = 32" and "istream_hex_spec E"
  shows "PrivateKey_of_bytes bs =
           (if 1 \<le> from_be bs \<and> from_be bs < CURVE_ORDER
            then Inr \<lparr>private_key = from_be bs\<rparr>
            else Inl (Invalid_argument ''Private key must be in range [1, curve_order)''))
       \<and> PrivateKey_of_hex E (bytes_to_hex bs) = PrivateKey_of_bytes bs
       \<and> PrivateKey_of_int (from_be bs) = PrivateKey_of_bytes bs
       \<and> PrivateKey_of_int (CURVE_ORDER - 1) = Inr \<lparr>private_key = CURVE_ORDER - 1\<rparr>
       \<and> PrivateKey_of_int 0 = Inl (Invalid_argument ''Private key must be in range [1, curve_order)'')
       \<and> (\<forall>v \<ge> CURVE_ORDER. PrivateKey_of_int v
             = Inl (Invalid_argument ''Private key must be in range [1, curve_order)''))"
  using assms curve_order_pos
  by (auto simp: PrivateKey_of_bytes_def PrivateKey_of_hex_def PrivateKey_of_int_def
      validate_key_def is_valid_private_key_def hex_to_bytes_bytes_to_hex Let_def)

theorem PrivateKey_range_witness:
  "PrivateKey_of_bytes (replicate 31 0 @ [5]) = Inr \<lparr>private_key = 5\<rparr>
   \<and> PrivateKey_of_hex Zn (bytes_to_hex (replicate 31 0 @ [5])) = Inr \<lparr>private_key = 5\<rparr>
   \<and> PrivateKey_of_int 5 = Inr \<lparr>private_key = 5\<rparr>"
proof -
  have len: "length (replicate 31 0 @ [5::byte]) = 32"
    by simp
  have val: "from_be (replicate 31 0 @ [5]) = 5"
    by code_simp
  show ?thesis
    using PrivateKey_range [OF len zn_istream_hex_spec]
    by (simp add: val CURVE_ORDER_def)
qed

section \<open>Random scalars\<close>

text \<open>
  Claim C9 asks that random scalar generation fail when the secure source fails. The
  code does otherwise: when \<^verbatim>\<open>RAND_bytes\<close> fails, \<^verbatim>\<open>generate_random_key\<close> builds the key
  from the bytes of the \<^verbatim>\<open>mt19937\<close> generator, and returns it when they are a valid
  scalar. Here the secure source fails and the generator delivers the scalar 1.
\<close>

theorem generate_random_key_falls_back:
  "generate_random_key \<lparr>RAND_bytes = None, mt19937_bytes = replicate 31 0 @ [1]\<rparr>
     = Inr \<lparr>private_key = 1\<rparr>
   \<and> fst (PrivateKey_random (\<lambda>i. \<lparr>RAND_bytes = None, mt19937_bytes = replicate 31 0 @ [1]\<rparr>))
     = Inr \<lparr>private_key = 1\<rparr>"
proof -
  have val: "from_be (replicate 31 0 @ [1]) = 1"
    by code_simp
  show ?thesis
    by (simp add: PrivateKey_random_def generate_random_key_def PrivateKey_of_bytes_def
        validate_key_def is_valid_private_key_def val CURVE_ORDER_def)
qed

section \<open>The operations on points under the contract\<close>

lemma low_byte: "uint (word_of_int (v AND 0xFF) :: byte) = v mod 256"
proof -
  have m: "(0xFF::int) = mask 8"
    by (simp add: mask_eq_exp_minus_1)
  have "v AND 0xFF = v mod 256"
    unfolding m by (simp add: take_bit_eq_mask [symmetric] take_bit_eq_mod)
  then show ?thesis
    by (simp add: uint_word_of_int)
qed

lemma from_be_to_be: "0 \<le> v \<Longrightarrow> v < 256 ^ k \<Longrightarrow> from_be (to_be k v) = v"
proof (induction k arbitrary: v)
  case 0
  then show ?case by (simp add: from_be_def)
next
  case (Suc k)
  have "0 \<le> v div 256" using Suc.prems by simp
  moreover have "v div 256 < 256 ^ k"
    using Suc.prems by (simp add: div_less_iff_less_mult mult.commute)
  ultimately have "from_be (to_be k (v div 256)) = v div 256"
    by (rule Suc.IH)
  then show ?case
    by (simp add: from_be_snoc low_byte drop_bit_eq_div)
qed

lemma curve_order_less: "CURVE_ORDER < 256 ^ 32"
  by (simp add: CURVE_ORDER_def)

lemma from_be_scalar: "0 < v \<Longrightarrow> v < CURVE_ORDER \<Longrightarrow> from_be (to_be 32 v) = v"
  using from_be_to_be [of v 32] curve_order_less by simp


lemma spec_dl_range:
  assumes "secp256k1_spec E dl pt"
  shows "0 < dl P" and "dl P < CURVE_ORDER"
  using assms unfolding secp256k1_spec_def by blast+

lemma spec_dl_pt:
  assumes "secp256k1_spec E dl pt" and "0 < k" and "k < CURVE_ORDER"
  shows "dl (pt k) = k"
  using assms unfolding secp256k1_spec_def by blast

lemma spec_create:
  assumes "secp256k1_spec E dl pt"
  shows "secp256k1_ec_pubkey_create E bs =
           (if length bs = 32 \<and> 0 < from_be bs \<and> from_be bs < CURVE_ORDER
            then Some (pt (from_be bs)) else None)"
  using assms unfolding secp256k1_spec_def by blast

lemma spec_combine:
  assumes "secp256k1_spec E dl pt"
  shows "secp256k1_ec_pubkey_combine E [P, Q] =
           (if (dl P + dl Q) mod CURVE_ORDER = 0 then None
            else Some (pt ((dl P + dl Q) mod CURVE_ORDER)))"
  using assms unfolding secp256k1_spec_def by blast

lemma spec_tweak_mul:
  assumes "secp256k1_spec E dl pt"
  shows "secp256k1_ec_pubkey_tweak_mul E P bs =
           (if length bs = 32 \<and> 0 < from_be bs \<and> from_be bs < CURVE_ORDER
               \<and> (from_be bs * dl P) mod CURVE_ORDER \<noteq> 0
            then Some (pt ((from_be bs * dl P) mod CURVE_ORDER)) else None)"
  using assms unfolding secp256k1_spec_def by blast

lemma spec_parse_serialize:
  assumes "secp256k1_spec E dl pt"
  shows "secp256k1_ec_pubkey_parse E (secp256k1_ec_pubkey_serialize E P c) = Some (pt (dl P))"
  using assms unfolding secp256k1_spec_def by blast

lemma spec_serialize_cong:
  assumes "secp256k1_spec E dl pt" and "dl P = dl Q"
  shows "secp256k1_ec_pubkey_serialize E P c = secp256k1_ec_pubkey_serialize E Q c"
  using assms unfolding secp256k1_spec_def by blast

lemma spec_compressed_format:
  assumes "secp256k1_spec E dl pt"
  shows "length (secp256k1_ec_pubkey_serialize E P True) = 33"
    and "secp256k1_ec_pubkey_serialize E P True ! 0 = 0x02
           \<or> secp256k1_ec_pubkey_serialize E P True ! 0 = 0x03"
  using assms unfolding secp256k1_spec_def by blast+

lemma spec_negate:
  assumes "secp256k1_spec E dl pt" and "dl P + dl Q = CURVE_ORDER"
  shows "secp256k1_ec_pubkey_serialize E Q True =
          (secp256k1_ec_pubkey_serialize E P True)
            [0 := (if secp256k1_ec_pubkey_serialize E P True ! 0 = 0x02 then 0x03 else 0x02)]"
  using assms unfolding secp256k1_spec_def by blast

lemma spec_data:
  assumes "secp256k1_spec E dl pt"
  shows "secp256k1_pubkey_data E P = secp256k1_pubkey_data E Q \<longleftrightarrow> dl P = dl Q"
  using assms unfolding secp256k1_spec_def by blast

lemma dl_pt_dl:
  assumes "secp256k1_spec E dl pt"
  shows "dl (pt (dl P)) = dl P"
  using spec_dl_pt [OF assms] spec_dl_range [OF assms] by blast

lemma serialize_pt_dl:
  assumes "secp256k1_spec E dl pt"
  shows "secp256k1_ec_pubkey_serialize E (pt (dl P)) c = secp256k1_ec_pubkey_serialize E P c"
  by (rule spec_serialize_cong [OF assms dl_pt_dl [OF assms]])

lemma PublicKey_of_bytes_valid:
  assumes "PublicKey_of_bytes E data raw = Inr P"
  shows "valid_point E P"
  using assms
  by (auto simp: PublicKey_of_bytes_def init_from_data_def validate_point_def valid_point_def
      split: if_splits option.splits)

lemma valid_point_pk_dl:
  assumes "secp256k1_spec E dl pt" and "valid_point E P"
  shows "0 < pk_dl E dl P" and "pk_dl E dl P < CURVE_ORDER"
  using assms(2) spec_dl_range [OF assms(1)]
  by (auto simp: valid_point_def pk_dl_def)

lemma PublicKey_of_serialized:
  assumes "secp256k1_spec E dl pt"
  shows "PublicKey_of_bytes E (secp256k1_ec_pubkey_serialize E p True) False = Inr (compressed_key E p)"
  using spec_compressed_format [OF assms, of p] spec_parse_serialize [OF assms, of p True]
  by (auto simp: PublicKey_of_bytes_def init_from_data_def validate_point_def compressed_key_def)

lemma compressed_key_valid:
  assumes "secp256k1_spec E dl pt"
  shows "valid_point E (compressed_key E p)"
  by (simp add: valid_point_def compressed_key_def spec_parse_serialize [OF assms])

lemma pk_dl_compressed_key:
  assumes "secp256k1_spec E dl pt"
  shows "pk_dl E dl (compressed_key E p) = dl p"
  by (simp add: pk_dl_def compressed_key_def spec_parse_serialize [OF assms] dl_pt_dl [OF assms])

lemma pk_dl_point:
  assumes "secp256k1_spec E dl pt" and "0 < k" and "k < CURVE_ORDER"
  shows "pk_dl E dl (compressed_key E (pt k)) = k"
  by (simp add: pk_dl_compressed_key [OF assms(1)] spec_dl_pt [OF assms])

lemma smod_scalar: "0 < v \<Longrightarrow> v < CURVE_ORDER \<Longrightarrow> v smod CURVE_ORDER = v"
  by (simp add: smod_mod_positive)

lemma pubkey_eq:
  assumes "secp256k1_spec E dl pt" and "valid_scalar k"
  shows "pubkey E k = Inr (compressed_key E (pt (private_key k)))"
  using assms(2)
  by (simp add: pubkey_def valid_scalar_def is_valid_private_key_def spec_create [OF assms(1)]
      length_to_be from_be_scalar PublicKey_of_serialized [OF assms(1)])

lemma pk_add_eq:
  assumes "secp256k1_spec E dl pt" and "valid_point E P" and "valid_point E Q"
  shows "pk_add E P Q =
           (if (pk_dl E dl P + pk_dl E dl Q) mod CURVE_ORDER = 0
            then Inl (Runtime_error ''Failed to combine public keys'')
            else Inr (compressed_key E (pt ((pk_dl E dl P + pk_dl E dl Q) mod CURVE_ORDER))))"
  using assms(2,3)
  by (auto simp: pk_add_def valid_point_def pk_dl_def spec_combine [OF assms(1)]
      PublicKey_of_serialized [OF assms(1)])

lemma mult_eq:
  assumes "secp256k1_spec E dl pt" and "valid_point E P" and "valid_scalar k"
  shows "mult E P k =
           (if (private_key k * pk_dl E dl P) mod CURVE_ORDER = 0
            then Inl (Runtime_error ''Failed to multiply public key by scalar'')
            else Inr (compressed_key E (pt ((private_key k * pk_dl E dl P) mod CURVE_ORDER))))"
  using assms(2,3)
  by (auto simp: mult_def tweak_mul_def valid_point_def valid_scalar_def is_valid_private_key_def
      pk_dl_def spec_tweak_mul [OF assms(1)] smod_scalar length_to_be from_be_scalar
      PublicKey_of_serialized [OF assms(1)])

lemma serialize_eq:
  assumes "secp256k1_spec E dl pt" and "valid_point E P"
  shows "serialize E P c = Inr (secp256k1_ec_pubkey_serialize E (pt (pk_dl E dl P)) c)"
  using assms(2)
  by (auto simp: serialize_def valid_point_def pk_dl_def serialize_pt_dl [OF assms(1)])

lemma pk_eq_eq:
  assumes "secp256k1_spec E dl pt" and "valid_point E P" and "valid_point E Q"
  shows "pk_eq E P Q = Inr (pk_dl E dl P = pk_dl E dl Q)"
  using assms(2,3)
  by (auto simp: pk_eq_def to_data_def and_then_def valid_point_def pk_dl_def spec_data [OF assms(1)])

lemma pk_neg_eq:
  assumes "secp256k1_spec E dl pt" and "valid_point E P"
  shows "pk_neg E P = Inr (compressed_key E (pt (CURVE_ORDER - pk_dl E dl P)))"
proof -
  from assms(2) obtain p where p: "secp256k1_ec_pubkey_parse E (point_data P) = Some p"
    by (auto simp: valid_point_def)
  then have d: "pk_dl E dl P = dl p"
    by (simp add: pk_dl_def)
  let ?q = "pt (CURVE_ORDER - dl p)"
  let ?s = "secp256k1_ec_pubkey_serialize E p True"
  have "dl ?q = CURVE_ORDER - dl p"
    using spec_dl_range [OF assms(1), of p] by (intro spec_dl_pt [OF assms(1)]) simp_all
  then have "dl p + dl ?q = CURVE_ORDER"
    by simp
  then have flip: "secp256k1_ec_pubkey_serialize E ?q True = ?s[0 := (if ?s ! 0 = 0x02 then 0x03 else 0x02)]"
    by (rule spec_negate [OF assms(1)])
  have fmt: "length ?s = 33" "?s ! 0 = 0x02 \<or> ?s ! 0 = 0x03"
    using spec_compressed_format [OF assms(1), of p] by blast+
  have "pk_neg E P = PublicKey_of_bytes E (?s[0 := (if ?s ! 0 = 0x02 then 0x03 else 0x02)]) False"
    using fmt by (auto simp: pk_neg_def serialize_def p and_then_def)
  also have "\<dots> = Inr (compressed_key E ?q)"
    unfolding flip [symmetric] by (rule PublicKey_of_serialized [OF assms(1)])
  finally show ?thesis
    by (simp add: d)
qed

lemma pk_sub_eq:
  assumes "secp256k1_spec E dl pt" and "valid_point E P" and "valid_point E Q"
  shows "pk_sub E P Q =
           (if (pk_dl E dl P - pk_dl E dl Q) mod CURVE_ORDER = 0
            then Inl (Runtime_error ''Failed to combine public keys'')
            else Inr (compressed_key E (pt ((pk_dl E dl P - pk_dl E dl Q) mod CURVE_ORDER))))"
proof -
  have q: "0 < CURVE_ORDER - pk_dl E dl Q" "CURVE_ORDER - pk_dl E dl Q < CURVE_ORDER"
    using valid_point_pk_dl [OF assms(1,3)] by simp_all
  have m: "(pk_dl E dl P + (CURVE_ORDER - pk_dl E dl Q)) mod CURVE_ORDER
             = (pk_dl E dl P - pk_dl E dl Q) mod CURVE_ORDER"
  proof -
    have "pk_dl E dl P + (CURVE_ORDER - pk_dl E dl Q) = (pk_dl E dl P - pk_dl E dl Q) + CURVE_ORDER"
      by simp
    then show ?thesis
      by (simp only: mod_add_self2)
  qed
  show ?thesis
    by (simp add: pk_sub_def pk_neg_eq [OF assms(1,3)] and_then_def
        pk_add_eq [OF assms(1,2) compressed_key_valid [OF assms(1)]]
        pk_dl_point [OF assms(1) q] m)
qed

section \<open>The instance meets the contract\<close>

lemma curve_order_odd: "odd CURVE_ORDER"
  by (simp add: CURVE_ORDER_def)

lemma zn_dl_range: "0 < zn_dl P \<and> zn_dl P < CURVE_ORDER"
proof -
  have "0 < CURVE_ORDER - 1" using curve_order_pos by simp
  then have "0 \<le> (P - 1) mod (CURVE_ORDER - 1)" "(P - 1) mod (CURVE_ORDER - 1) < CURVE_ORDER - 1"
    by simp_all
  then show ?thesis by (simp add: zn_dl_def)
qed

lemma zn_dl_id: "0 < k \<Longrightarrow> k < CURVE_ORDER \<Longrightarrow> zn_dl k = k"
  by (simp add: zn_dl_def)

lemma zn_x_range:
  "0 < min (zn_dl P) (CURVE_ORDER - zn_dl P) \<and> min (zn_dl P) (CURVE_ORDER - zn_dl P) < 256 ^ 32"
  using zn_dl_range [of P] curve_order_less by auto

lemma zn_x_encoded:
  "from_be (to_be 32 (min (zn_dl P) (CURVE_ORDER - zn_dl P))) = min (zn_dl P) (CURVE_ORDER - zn_dl P)"
  using zn_x_range [of P] by (intro from_be_to_be) auto

lemma zn_dl_encoded: "from_be (to_be 32 (zn_dl P)) = zn_dl P"
  using zn_dl_range [of P] by (intro from_be_scalar) auto

lemma zn_not_half: "2 * zn_dl P \<noteq> CURVE_ORDER"
  using curve_order_odd by (metis dvd_triv_left)

lemma zn_parse_serialize: "zn_parse (zn_serialize P c) = Some (zn_dl P)"
proof (cases c)
  case True
  show ?thesis
    using zn_dl_range [of P] zn_not_half [of P] zn_x_encoded [of P]
    by (auto simp: True zn_parse_def zn_serialize_def length_to_be min_def)
next
  case False
  show ?thesis
    using zn_dl_range [of P] zn_x_encoded [of P] zn_dl_encoded [of P]
    by (simp add: False zn_parse_def zn_serialize_def length_to_be)
qed

lemma zn_negate:
  assumes "zn_dl P + zn_dl Q = CURVE_ORDER"
  shows "zn_serialize Q True =
           (zn_serialize P True)[0 := (if zn_serialize P True ! 0 = 0x02 then 0x03 else 0x02)]"
proof -
  have q: "zn_dl Q = CURVE_ORDER - zn_dl P"
    using assms by simp
  show ?thesis
    using zn_not_half [of P] by (auto simp: zn_serialize_def q min_def)
qed

lemma zn_data_eq: "zn_data P = zn_data Q \<longleftrightarrow> zn_dl P = zn_dl Q"
proof
  assume "zn_data P = zn_data Q"
  then have "to_be 32 (zn_dl P) = to_be 32 (zn_dl Q)"
    by (simp add: zn_data_def length_to_be)
  then have "from_be (to_be 32 (zn_dl P)) = from_be (to_be 32 (zn_dl Q))"
    by simp
  then show "zn_dl P = zn_dl Q"
    by (simp add: zn_dl_encoded)
next
  assume "zn_dl P = zn_dl Q"
  then show "zn_data P = zn_data Q"
    by (simp add: zn_data_def)
qed

lemma zn_spec: "secp256k1_spec Zn zn_dl zn_pt"
  unfolding secp256k1_spec_def
proof (intro conjI allI impI)
  fix P Q :: int and c :: bool and k :: int and bs :: "byte list"
  show "0 < zn_dl P" "zn_dl P < CURVE_ORDER"
    using zn_dl_range [of P] by simp_all
  show "zn_dl (zn_pt k) = k" if "0 < k \<and> k < CURVE_ORDER"
    using that by (simp add: zn_pt_def zn_dl_id)
  show "secp256k1_ec_pubkey_create Zn bs =
          (if length bs = 32 \<and> 0 < from_be bs \<and> from_be bs < CURVE_ORDER
           then Some (zn_pt (from_be bs)) else None)"
    by (simp add: Zn_def zn_create_def zn_pt_def)
  show "secp256k1_ec_pubkey_combine Zn [P, Q] =
          (if (zn_dl P + zn_dl Q) mod CURVE_ORDER = 0 then None
           else Some (zn_pt ((zn_dl P + zn_dl Q) mod CURVE_ORDER)))"
    by (simp add: Zn_def zn_combine_def zn_pt_def)
  show "secp256k1_ec_pubkey_tweak_mul Zn P bs =
          (if length bs = 32 \<and> 0 < from_be bs \<and> from_be bs < CURVE_ORDER
              \<and> (from_be bs * zn_dl P) mod CURVE_ORDER \<noteq> 0
           then Some (zn_pt ((from_be bs * zn_dl P) mod CURVE_ORDER)) else None)"
    by (simp add: Zn_def zn_tweak_mul_def zn_pt_def)
  show "secp256k1_ec_pubkey_parse Zn (secp256k1_ec_pubkey_serialize Zn P c) = Some (zn_pt (zn_dl P))"
    by (simp add: Zn_def zn_pt_def zn_parse_serialize)
  show "secp256k1_ec_pubkey_serialize Zn P c = secp256k1_ec_pubkey_serialize Zn Q c"
    if "zn_dl P = zn_dl Q"
    using that by (simp add: Zn_def zn_serialize_def)
  show "length (secp256k1_ec_pubkey_serialize Zn P True) = 33"
    by (simp add: Zn_def zn_serialize_def length_to_be)
  show "secp256k1_ec_pubkey_serialize Zn P True ! 0 = 0x02
          \<or> secp256k1_ec_pubkey_serialize Zn P True ! 0 = 0x03"
    by (simp add: Zn_def zn_serialize_def)
  show "secp256k1_ec_pubkey_serialize Zn Q True =
          (secp256k1_ec_pubkey_serialize Zn P True)
            [0 := (if secp256k1_ec_pubkey_serialize Zn P True ! 0 = 0x02 then 0x03 else 0x02)]"
    if "zn_dl P + zn_dl Q = CURVE_ORDER"
    using zn_negate [OF that] by (simp add: Zn_def)
  show "(secp256k1_pubkey_data Zn P = secp256k1_pubkey_data Zn Q) = (zn_dl P = zn_dl Q)"
    by (simp add: Zn_def zn_data_eq)
qed

section \<open>Homomorphism of public keys\<close>

lemma valid_scalarD: "valid_scalar k \<Longrightarrow> 0 < private_key k \<and> private_key k < CURVE_ORDER"
  by (simp add: valid_scalar_def is_valid_private_key_def)

lemma PrivateKey_of_int_eq:
  "PrivateKey_of_int v =
     (if 0 < v \<and> v < CURVE_ORDER then Inr \<lparr>private_key = v\<rparr>
      else Inl (Invalid_argument ''Private key must be in range [1, curve_order)''))"
  by (simp add: PrivateKey_of_int_def validate_key_def is_valid_private_key_def)

lemma mod_order_range: "0 \<le> x mod CURVE_ORDER \<and> x mod CURVE_ORDER < CURVE_ORDER"
  using curve_order_pos by simp

text \<open>
  Claim C8, as amended. For valid scalars \<open>a\<close> and \<open>b\<close> whose sum is not \<open>CURVE_ORDER\<close>,
  the public keys of \<open>a\<close> and \<open>b\<close> can be added, \<open>(a + b) mod CURVE_ORDER\<close> is a valid
  scalar (the one \<^verbatim>\<open>tweak_add\<close> returns), and the sum of the public keys equals its
  public key.
\<close>

theorem pubkey_homomorphism:
  assumes "secp256k1_spec E dl pt" and "valid_scalar a" and "valid_scalar b"
    and "private_key a + private_key b \<noteq> CURVE_ORDER"
  shows "\<exists>A B S k T. pubkey E a = Inr A \<and> pubkey E b = Inr B \<and> pk_add E A B = Inr S
           \<and> PrivateKey_of_int ((private_key a + private_key b) mod CURVE_ORDER) = Inr k
           \<and> key_tweak_add a (private_key b) = Inr k
           \<and> pubkey E k = Inr T \<and> pk_eq E S T = Inr True"
proof -
  let ?a = "private_key a" and ?b = "private_key b"
  let ?k = "(?a + ?b) mod CURVE_ORDER"
  have a: "0 < ?a" "?a < CURVE_ORDER" and b: "0 < ?b" "?b < CURVE_ORDER"
    using valid_scalarD [OF assms(2)] valid_scalarD [OF assms(3)] by simp_all
  have nz: "?k \<noteq> 0"
  proof (cases "?a + ?b < CURVE_ORDER")
    case True
    then have "?k = ?a + ?b" using a b by simp
    with a b show ?thesis by simp
  next
    case False
    have "?k = (?a + ?b - CURVE_ORDER) mod CURVE_ORDER"
      by (simp only: minus_mod_self2)
    also have "\<dots> = ?a + ?b - CURVE_ORDER"
      by (rule mod_pos_pos_trivial) (use False a b in simp_all)
    finally show ?thesis
      using assms(4) by simp
  qed
  have k: "0 < ?k" "?k < CURVE_ORDER"
    using nz mod_order_range [of "?a + ?b"] by simp_all
  have vk: "valid_scalar \<lparr>private_key = ?k\<rparr>"
    using k by (simp add: valid_scalar_def is_valid_private_key_def)
  have A: "pubkey E a = Inr (compressed_key E (pt ?a))"
    and B: "pubkey E b = Inr (compressed_key E (pt ?b))"
    by (simp_all add: pubkey_eq [OF assms(1)] assms(2,3))
  have S: "pk_add E (compressed_key E (pt ?a)) (compressed_key E (pt ?b)) = Inr (compressed_key E (pt ?k))"
    using nz
    by (simp add: pk_add_eq [OF assms(1) compressed_key_valid [OF assms(1)] compressed_key_valid [OF assms(1)]]
        pk_dl_point [OF assms(1) a] pk_dl_point [OF assms(1) b])
  have K: "PrivateKey_of_int ?k = Inr \<lparr>private_key = ?k\<rparr>"
    using k by (simp add: PrivateKey_of_int_eq)
  have K': "key_tweak_add a ?b = Inr \<lparr>private_key = ?k\<rparr>"
    using a b K by (simp add: key_tweak_add_def smod_mod_positive)
  have T: "pubkey E \<lparr>private_key = ?k\<rparr> = Inr (compressed_key E (pt ?k))"
    using pubkey_eq [OF assms(1) vk] by simp
  have "pk_eq E (compressed_key E (pt ?k)) (compressed_key E (pt ?k)) = Inr True"
    by (simp add: pk_eq_eq [OF assms(1) compressed_key_valid [OF assms(1)] compressed_key_valid [OF assms(1)]])
  with A B S K K' T show ?thesis
    by blast
qed

theorem pubkey_homomorphism_witness:
  "\<exists>A B S k T. pubkey Zn \<lparr>private_key = 2\<rparr> = Inr A \<and> pubkey Zn \<lparr>private_key = 3\<rparr> = Inr B
     \<and> pk_add Zn A B = Inr S
     \<and> PrivateKey_of_int ((2 + 3) mod CURVE_ORDER) = Inr k
     \<and> key_tweak_add \<lparr>private_key = 2\<rparr> 3 = Inr k
     \<and> pubkey Zn k = Inr T \<and> pk_eq Zn S T = Inr True"
proof -
  have v: "valid_scalar \<lparr>private_key = 2\<rparr>" "valid_scalar \<lparr>private_key = 3\<rparr>"
    by (simp_all add: valid_scalar_def is_valid_private_key_def CURVE_ORDER_def)
  have ne: "private_key \<lparr>private_key = 2\<rparr> + private_key \<lparr>private_key = 3\<rparr> \<noteq> CURVE_ORDER"
    by (simp add: CURVE_ORDER_def)
  show ?thesis
    using pubkey_homomorphism [OF zn_spec v ne] by simp
qed

text \<open>
  As stated for all valid scalars the claim fails: for \<open>a = 1\<close> and
  \<open>b = CURVE_ORDER - 1\<close> the sum of the public keys is the point at infinity, which
  \<^verbatim>\<open>operator+\<close> refuses with \<^verbatim>\<open>runtime_error\<close>, and \<open>(a + b) mod CURVE_ORDER = 0\<close> is no
  scalar.
\<close>

theorem pubkey_homomorphism_counterexample:
  "and_then (pubkey Zn \<lparr>private_key = 1\<rparr>) (\<lambda>A.
     and_then (pubkey Zn \<lparr>private_key = CURVE_ORDER - 1\<rparr>) (\<lambda>B. pk_add Zn A B))
     = Inl (Runtime_error ''Failed to combine public keys'')
   \<and> PrivateKey_of_int ((1 + (CURVE_ORDER - 1)) mod CURVE_ORDER)
     = Inl (Invalid_argument ''Private key must be in range [1, curve_order)'')"
  by code_simp

section \<open>Facts about the protocol steps and the instance\<close>

lemma PrivateKey_of_bytes_valid: "PrivateKey_of_bytes bs = Inr k \<Longrightarrow> valid_scalar k"
  by (auto simp: PrivateKey_of_bytes_def validate_key_def valid_scalar_def split: if_splits)

lemma PrivateKey_of_int_valid: "PrivateKey_of_int v = Inr k \<Longrightarrow> valid_scalar k \<and> private_key k = v"
  by (auto simp: PrivateKey_of_int_def validate_key_def valid_scalar_def split: if_splits)

lemma PrivateKey_random_valid: "fst (PrivateKey_random rnd) = Inr k \<Longrightarrow> valid_scalar k"
  by (auto simp: PrivateKey_random_def generate_random_key_def Let_def
      dest: PrivateKey_of_bytes_valid)

lemma hash_to_curve_loop_valid:
  "hash_to_curve_loop E m c = Inr P \<Longrightarrow> valid_point E P"
proof (induction E m c rule: hash_to_curve_loop.induct)
  case (1 E m c)
  let ?r = "PublicKey_of_bytes E (0x02 # sha256 E (concat_vectors m (uint32_to_le_bytes c))) False"
  from "1.prems" have lt: "c < 65536"
    by (subst (asm) hash_to_curve_loop.simps) (simp split: if_splits)
  show ?case
  proof (cases ?r)
    case (Inr Q)
    with lt "1.prems" have "Q = P"
      by (subst (asm) hash_to_curve_loop.simps) (simp add: Let_def)
    with Inr show ?thesis by (auto dest: PublicKey_of_bytes_valid)
  next
    case (Inl e)
    with lt "1.prems" have "hash_to_curve_loop E m (c + 1) = Inr P"
      by (subst (asm) hash_to_curve_loop.simps) (simp add: Let_def)
    with "1.IH" lt Inl show ?thesis by (simp add: Let_def)
  qed
qed

lemma hash_to_curve_string_valid:
  "hash_to_curve_string E secret = Inr Y \<Longrightarrow> valid_point E Y"
  by (auto simp: hash_to_curve_string_def hash_to_curve_def Let_def dest: hash_to_curve_loop_valid)

lemma hash_to_curve_deprecated_valid:
  "hash_to_curve_deprecated E m = Some Y \<Longrightarrow> valid_point E Y"
  by (erule hash_to_curve_deprecated.raw_induct [rotated])
    (auto split: sum.splits dest: PublicKey_of_bytes_valid)

lemma sum_mod_order:
  assumes "0 < x" "x < CURVE_ORDER" "0 < y" "y < CURVE_ORDER"
  shows "(x + y) mod CURVE_ORDER = 0 \<longleftrightarrow> x + y = CURVE_ORDER"
proof (cases "x + y < CURVE_ORDER")
  case True
  with assms show ?thesis by simp
next
  case False
  with assms have "0 \<le> x + y - CURVE_ORDER" "x + y - CURVE_ORDER < CURVE_ORDER" by simp_all
  then have "(x + y - CURVE_ORDER) mod CURVE_ORDER = x + y - CURVE_ORDER"
    by (rule mod_pos_pos_trivial)
  moreover have "(x + y - CURVE_ORDER) mod CURVE_ORDER = (x + y) mod CURVE_ORDER"
    by (rule minus_mod_self2)
  ultimately have "(x + y) mod CURVE_ORDER = x + y - CURVE_ORDER"
    by simp
  then show ?thesis by auto
qed


lemma coprime_mult_nonzero:
  assumes "coprime k CURVE_ORDER" and "0 < d" and "d < CURVE_ORDER"
  shows "(k * d) mod CURVE_ORDER \<noteq> 0"
proof
  assume "(k * d) mod CURVE_ORDER = 0"
  then have "CURVE_ORDER dvd k * d" by (simp add: dvd_eq_mod_eq_0)
  with assms(1) have "CURVE_ORDER dvd d"
    by (simp add: coprime_commute coprime_dvd_mult_right_iff)
  with assms(2,3) show False
    by (simp add: zdvd_not_zless)
qed

lemma mult_coprime:
  assumes "secp256k1_spec E dl pt" and "valid_point E P" and "valid_scalar k"
    and "coprime (private_key k) CURVE_ORDER"
  shows "mult E P k = Inr (compressed_key E (pt ((private_key k * pk_dl E dl P) mod CURVE_ORDER)))"
  using coprime_mult_nonzero [OF assms(4) valid_point_pk_dl [OF assms(1,2)]]
  by (simp add: mult_eq [OF assms(1,2,3)])

lemma mod_nonzero_range:
  "x mod CURVE_ORDER \<noteq> 0 \<Longrightarrow> 0 < x mod CURVE_ORDER \<and> x mod CURVE_ORDER < CURVE_ORDER"
  using mod_order_range [of x] by simp


lemma to_hex_eq:
  assumes "secp256k1_spec E dl pt" and "valid_point E P"
  shows "to_hex E P c = Inr (bytes_to_hex (secp256k1_ec_pubkey_serialize E (pt (pk_dl E dl P)) c))"
  by (simp add: to_hex_def serialize_eq [OF assms] and_then_def)


lemma zn_compressed_key: "compressed_key Zn k = zn_point k"
  by (simp add: compressed_key_def zn_point_def Zn_def)

lemma zn_point_valid: "valid_point Zn (zn_point k)"
  using compressed_key_valid [OF zn_spec, of k] by (simp add: zn_compressed_key)

lemma zn_point_dl: "0 < k \<Longrightarrow> k < CURVE_ORDER \<Longrightarrow> pk_dl Zn zn_dl (zn_point k) = k"
  using pk_dl_point [OF zn_spec, of k] by (simp add: zn_compressed_key zn_pt_def)

lemma zn_pubkey:
  "0 < k \<Longrightarrow> k < CURVE_ORDER \<Longrightarrow> pubkey Zn \<lparr>private_key = k\<rparr> = Inr (zn_point k)"
  using pubkey_eq [OF zn_spec, of "\<lparr>private_key = k\<rparr>"]
  by (simp add: valid_scalar_def is_valid_private_key_def zn_compressed_key zn_pt_def)

lemma zn_mult:
  "0 < k \<Longrightarrow> k < CURVE_ORDER \<Longrightarrow> 0 < d \<Longrightarrow> d < CURVE_ORDER \<Longrightarrow>
     mult Zn (zn_point d) \<lparr>private_key = k\<rparr> =
       (if (k * d) mod CURVE_ORDER = 0
        then Inl (Runtime_error ''Failed to multiply public key by scalar'')
        else Inr (zn_point ((k * d) mod CURVE_ORDER)))"
  using mult_eq [OF zn_spec zn_point_valid, of "\<lparr>private_key = k\<rparr>" d]
  by (simp add: valid_scalar_def is_valid_private_key_def zn_compressed_key zn_pt_def zn_point_dl)

lemma zn_add:
  "0 < j \<Longrightarrow> j < CURVE_ORDER \<Longrightarrow> 0 < k \<Longrightarrow> k < CURVE_ORDER \<Longrightarrow>
     pk_add Zn (zn_point j) (zn_point k) =
       (if (j + k) mod CURVE_ORDER = 0 then Inl (Runtime_error ''Failed to combine public keys'')
        else Inr (zn_point ((j + k) mod CURVE_ORDER)))"
  using pk_add_eq [OF zn_spec zn_point_valid zn_point_valid, of j k]
  by (simp add: zn_compressed_key zn_pt_def zn_point_dl)

lemma zn_sub:
  "0 < j \<Longrightarrow> j < CURVE_ORDER \<Longrightarrow> 0 < k \<Longrightarrow> k < CURVE_ORDER \<Longrightarrow>
     pk_sub Zn (zn_point j) (zn_point k) =
       (if (j - k) mod CURVE_ORDER = 0 then Inl (Runtime_error ''Failed to combine public keys'')
        else Inr (zn_point ((j - k) mod CURVE_ORDER)))"
  using pk_sub_eq [OF zn_spec zn_point_valid zn_point_valid, of j k]
  by (simp add: zn_compressed_key zn_pt_def zn_point_dl)

lemma zn_eq:
  "0 < j \<Longrightarrow> j < CURVE_ORDER \<Longrightarrow> 0 < k \<Longrightarrow> k < CURVE_ORDER \<Longrightarrow>
     pk_eq Zn (zn_point j) (zn_point k) = Inr (j = k)"
  using pk_eq_eq [OF zn_spec zn_point_valid zn_point_valid, of j k]
  by (simp add: zn_point_dl)

lemma Zn_serialize: "secp256k1_ec_pubkey_serialize Zn = zn_serialize"
  by (simp add: Zn_def)

lemma Zn_SHA256: "SHA256 Zn = zn_sha256"
  by (simp add: Zn_def)

lemma zn_to_hex:
  "0 < k \<Longrightarrow> k < CURVE_ORDER \<Longrightarrow>
     to_hex Zn (zn_point k) c = Inr (bytes_to_hex (zn_serialize k c))"
  using to_hex_eq [OF zn_spec zn_point_valid, of k c]
  by (simp add: zn_point_dl zn_pt_def Zn_serialize)

lemmas zn_ops = zn_pubkey zn_mult zn_add zn_sub zn_eq zn_to_hex

lemma zn_secret: "hash_to_curve_string Zn ''secret'' = Inr (zn_point 4)"
  by code_simp

lemma zn_secret_deprecated: "hash_to_curve_deprecated Zn (bytes_of_string ''secret'') = Some (zn_point 1)"
  by code_simp

lemma zn_challenge:
  "zn_sha256 (bytes_of_string (bytes_to_hex (zn_serialize 7 False) @ bytes_to_hex (zn_serialize 42 False)
     @ bytes_to_hex (zn_serialize 3 False) @ bytes_to_hex (zn_serialize 18 False))) = to_be 32 4"
  by code_simp

lemma zn_random: "PrivateKey_random (fixed_rng 7) = (Inr \<lparr>private_key = 7\<rparr>, fixed_rng 7)"
proof -
  have "generate_random_key (fixed_rng 7 0) = Inr \<lparr>private_key = 7\<rparr>"
    by code_simp
  then show ?thesis
    by (simp add: PrivateKey_random_def fixed_rng_def)
qed

lemma from_be_4: "from_be (to_be 32 4) = 4"
  by (rule from_be_to_be) simp_all


lemma zn_step1:
  "step1_alice Zn (fixed_rng 7) ''secret'' (Some \<lparr>private_key = 2\<rparr>)
     = Inr (zn_point 6, \<lparr>private_key = 2\<rparr>)"
  by (simp add: step1_alice_def and_then_def zn_secret zn_ops CURVE_ORDER_def)

lemma zn_dleq:
  "p_bytes = [] \<or> p_bytes = serialize_key \<lparr>private_key = 7\<rparr> \<Longrightarrow>
   step2_bob_dleq Zn (fixed_rng 7) (zn_point 6) \<lparr>private_key = 3\<rparr> p_bytes
     = Inr (\<lparr>private_key = 4\<rparr>, \<lparr>private_key = 19\<rparr>)"
proof -
  assume "p_bytes = [] \<or> p_bytes = serialize_key \<lparr>private_key = 7\<rparr>"
  moreover have "serialize_key \<lparr>private_key = 7\<rparr> \<noteq> []"
    "PrivateKey_of_bytes (serialize_key \<lparr>private_key = 7\<rparr>) = Inr \<lparr>private_key = 7\<rparr>"
    by code_simp+
  ultimately have p: "(if p_bytes \<noteq> [] then PrivateKey_of_bytes p_bytes
                       else Inr \<lparr>private_key = 7\<rparr>) = Inr \<lparr>private_key = 7\<rparr>"
    by auto
  show ?thesis
    unfolding step2_bob_dleq_def zn_random prod.case fst_conv p
    by (simp add: and_then_def hash_e_def zn_ops
        sha256_def Zn_SHA256 zn_challenge PrivateKey_of_bytes_def length_to_be from_be_4
        validate_key_def is_valid_private_key_def key_tweak_mul_def key_tweak_add_def
        PrivateKey_of_int_def CURVE_ORDER_def)
qed

lemma zn_scalars:
  "valid_scalar \<lparr>private_key = 2\<rparr>" "valid_scalar \<lparr>private_key = 3\<rparr>"
  "valid_scalar \<lparr>private_key = 4\<rparr>" "valid_scalar \<lparr>private_key = 7\<rparr>"
  "valid_scalar \<lparr>private_key = 19\<rparr>"
  by (simp_all add: valid_scalar_def is_valid_private_key_def CURVE_ORDER_def)

lemma zn_coprime:
  "coprime (private_key \<lparr>private_key = 3\<rparr>) CURVE_ORDER"
  "coprime (private_key \<lparr>private_key = 4\<rparr>) CURVE_ORDER"
  "coprime (private_key \<lparr>private_key = 19\<rparr>) CURVE_ORDER"
  by code_simp+

section \<open>The blind signature round trip\<close>

text \<open>
  Claim C1, as amended. Let \<open>a\<close> be a valid issuer scalar and \<open>r0\<close> a valid blinding
  factor, given to \<^verbatim>\<open>step1_alice\<close> or drawn by it. If \<^verbatim>\<open>hash_to_curve\<close> finds no point for
  the secret, \<^verbatim>\<open>step1_alice\<close> throws its error. Otherwise let \<open>Y\<close> be the point of
  \<^verbatim>\<open>hash_to_curve\<close>.

  \<^item> If \<open>r0*G = -Y\<close>, that is if the discrete logarithm of \<open>Y\<close> and \<open>r0\<close> add up to
    \<open>CURVE_ORDER\<close>, the blinded message \<open>Y + r0*G\<close> is the point at infinity and
    \<^verbatim>\<open>step1_alice\<close> throws \<^verbatim>\<open>runtime_error("Failed to combine public keys")\<close>.
  \<^item> Otherwise \<^verbatim>\<open>step1_alice\<close> returns \<open>(B', r0)\<close>; \<open>a*B'\<close> exists and is the blinded
    signature \<open>C'\<close> in what \<^verbatim>\<open>step2_bob\<close> returns, which returns whenever its DLEQ part
    does; \<^verbatim>\<open>step3_alice\<close> returns, for \<open>C'\<close>, \<open>r0\<close> and the public key of \<open>a\<close>, a point \<open>C\<close>
    equal to \<open>a\<close> times \<open>Y\<close>; and \<^verbatim>\<open>verify\<close> accepts \<open>C\<close>.

  The scalar \<open>a\<close> is taken coprime to \<open>CURVE_ORDER\<close>, as every valid scalar is when
  \<open>CURVE_ORDER\<close> is prime.
\<close>

theorem bdhke_round_trip:
  assumes spec: "secp256k1_spec E dl pt"
    and a: "valid_scalar a" "coprime (private_key a) CURVE_ORDER"
    and r0: "valid_scalar r0"
    and bf: "blinding_factor = Some r0
             \<or> blinding_factor = None \<and> fst (PrivateKey_random rnd1) = Inr r0"
  shows "case hash_to_curve_string E secret of
           Inl err \<Rightarrow> step1_alice E rnd1 secret blinding_factor = Inl err
         | Inr Y \<Rightarrow>
             if pk_dl E dl Y + private_key r0 = CURVE_ORDER
             then step1_alice E rnd1 secret blinding_factor
                    = Inl (Runtime_error ''Failed to combine public keys'')
             else (\<exists>B' C' A C a_times_Y.
                     step1_alice E rnd1 secret blinding_factor = Inr (B', r0)
                     \<and> mult E B' a = Inr C'
                     \<and> step2_bob E rnd2 B' a
                         = and_then (step2_bob_dleq E rnd2 B' a []) (\<lambda>(e, s). Inr (C', e, s))
                     \<and> pubkey E a = Inr A \<and> step3_alice E C' r0 A = Inr C
                     \<and> mult E Y a = Inr a_times_Y
                     \<and> pk_eq E C a_times_Y = Inr True
                     \<and> verify E a C secret = Some (Inr True))"
proof (cases "hash_to_curve_string E secret")
  case (Inl err)
  then show ?thesis
    by (simp add: step1_alice_def and_then_def)
next
  case Y: (Inr Y)
  note ck = compressed_key_valid [OF spec]
  let ?n = CURVE_ORDER and ?a = "private_key a" and ?r = "private_key r0"
  have vY: "valid_point E Y" by (rule hash_to_curve_string_valid [OF Y])
  let ?y = "pk_dl E dl Y"
  have y: "0 < ?y" "?y < ?n" using valid_point_pk_dl [OF spec vY] by simp_all
  have r_src: "(case blinding_factor of Some bf \<Rightarrow> Inr bf | None \<Rightarrow> fst (PrivateKey_random rnd1)) = Inr r0"
    using bf by auto
  have r: "0 < ?r" "?r < ?n" using valid_scalarD [OF r0] by simp_all
  have rG: "pubkey E r0 = Inr (compressed_key E (pt ?r))"
    by (rule pubkey_eq [OF spec r0])
  let ?b = "(?y + ?r) mod ?n"
  have zero: "?b = 0 \<longleftrightarrow> ?y + ?r = ?n"
    by (rule sum_mod_order [OF y r])
  have step1: "step1_alice E rnd1 secret blinding_factor =
                 (if ?y + ?r = ?n then Inl (Runtime_error ''Failed to combine public keys'')
                  else Inr (compressed_key E (pt ?b), r0))"
    by (simp add: step1_alice_def Y r_src rG and_then_def pk_add_eq [OF spec vY ck]
        pk_dl_point [OF spec r] zero)
  show ?thesis
  proof (cases "?y + ?r = ?n")
    case True
    with step1 Y show ?thesis by simp
  next
    case False
    with zero have nz: "?b \<noteq> 0" by simp
    then have b: "0 < ?b" "?b < ?n" using mod_nonzero_range [of "?y + ?r"] by simp_all
    let ?B = "compressed_key E (pt ?b)"
    have s1: "step1_alice E rnd1 secret blinding_factor = Inr (?B, r0)"
      using step1 False by simp
    have vB: "valid_point E ?B" by (rule ck)
    have dB: "pk_dl E dl ?B = ?b" by (rule pk_dl_point [OF spec b])
    let ?c = "(?a * ?b) mod ?n"
    let ?C' = "compressed_key E (pt ?c)"
    have C': "mult E ?B a = Inr ?C'"
      using mult_coprime [OF spec vB a] by (simp add: dB)
    have s2: "step2_bob E rnd2 ?B a
                = and_then (step2_bob_dleq E rnd2 ?B a []) (\<lambda>(e, s). Inr (?C', e, s))"
      by (simp add: step2_bob_def C' and_then_def)
    have c: "0 < ?c" "?c < ?n"
      using mod_nonzero_range [OF coprime_mult_nonzero [OF a(2) b]] by simp_all
    have A: "pubkey E a = Inr (compressed_key E (pt ?a))"
      by (rule pubkey_eq [OF spec a(1)])
    have an: "0 < ?a" "?a < ?n" using valid_scalarD [OF a(1)] by simp_all
    let ?ra = "(?r * ?a) mod ?n"
    have ra_nz: "?ra \<noteq> 0"
      using coprime_mult_nonzero [OF a(2) r] by (simp add: mult.commute)
    have ra: "0 < ?ra" "?ra < ?n" using mod_nonzero_range [OF ra_nz] by simp_all
    have rA: "mult E (compressed_key E (pt ?a)) r0 = Inr (compressed_key E (pt ?ra))"
      using ra_nz by (simp add: mult_eq [OF spec ck r0] pk_dl_point [OF spec an])
    let ?ay = "(?a * ?y) mod ?n"
    have ay_nz: "?ay \<noteq> 0" by (rule coprime_mult_nonzero [OF a(2) y])
    have diff: "(?c - ?ra) mod ?n = ?ay"
    proof -
      have "(?c - ?ra) mod ?n = (?a * (?y + ?r) - ?r * ?a) mod ?n"
        by (simp add: mod_simps)
      also have "?a * (?y + ?r) - ?r * ?a = ?a * ?y"
        by (simp add: algebra_simps)
      finally show ?thesis .
    qed
    have C: "step3_alice E ?C' r0 (compressed_key E (pt ?a)) = Inr (compressed_key E (pt ?ay))"
      using ay_nz
      by (simp add: step3_alice_def rA and_then_def pk_sub_eq [OF spec ck ck]
          pk_dl_point [OF spec c] pk_dl_point [OF spec ra] diff)
    have aY: "mult E Y a = Inr (compressed_key E (pt ?ay))"
      by (rule mult_coprime [OF spec vY a])
    have eq: "pk_eq E (compressed_key E (pt ?ay)) (compressed_key E (pt ?ay)) = Inr True"
      by (simp add: pk_eq_eq [OF spec ck ck])
    have v: "verify E a (compressed_key E (pt ?ay)) secret = Some (Inr True)"
      by (simp add: verify_def Y aY eq and_then_def)
    from s1 C' s2 A C aY eq v
    have "\<exists>B' C' A C a_times_Y.
                 step1_alice E rnd1 secret blinding_factor = Inr (B', r0)
                 \<and> mult E B' a = Inr C'
                 \<and> step2_bob E rnd2 B' a
                     = and_then (step2_bob_dleq E rnd2 B' a []) (\<lambda>(e, s). Inr (C', e, s))
                 \<and> pubkey E a = Inr A \<and> step3_alice E C' r0 A = Inr C
                 \<and> mult E Y a = Inr a_times_Y
                 \<and> pk_eq E C a_times_Y = Inr True
                 \<and> verify E a C secret = Some (Inr True)"
      by blast
    with False Y show ?thesis by simp
  qed
qed

text \<open>
  The theorem at the secret \<open>''secret''\<close> with \<open>Y = 4*G\<close>, \<open>a = 3\<close> and \<open>r0 = 2\<close>.
\<close>

theorem bdhke_round_trip_witness:
  "step1_alice Zn (fixed_rng 7) ''secret'' (Some \<lparr>private_key = 2\<rparr>)
     = Inr (zn_point 6, \<lparr>private_key = 2\<rparr>)
   \<and> step2_bob Zn (fixed_rng 7) (zn_point 6) \<lparr>private_key = 3\<rparr>
       = Inr (zn_point 18, \<lparr>private_key = 4\<rparr>, \<lparr>private_key = 19\<rparr>)
   \<and> (\<exists>A C a_times_Y.
         pubkey Zn \<lparr>private_key = 3\<rparr> = Inr A
         \<and> step3_alice Zn (zn_point 18) \<lparr>private_key = 2\<rparr> A = Inr C
         \<and> mult Zn (zn_point 4) \<lparr>private_key = 3\<rparr> = Inr a_times_Y
         \<and> pk_eq Zn C a_times_Y = Inr True
         \<and> verify Zn \<lparr>private_key = 3\<rparr> C ''secret'' = Some (Inr True))"
proof -
  have bf: "Some \<lparr>private_key = 2\<rparr> = Some \<lparr>private_key = 2\<rparr>
            \<or> Some \<lparr>private_key = 2\<rparr> = None
              \<and> fst (PrivateKey_random (fixed_rng 7)) = Inr \<lparr>private_key = 2\<rparr>"
    by simp
  have finite: "pk_dl Zn zn_dl (zn_point 4) + private_key \<lparr>private_key = 2\<rparr> \<noteq> CURVE_ORDER"
    by (simp add: zn_point_dl CURVE_ORDER_def)
  have mult: "mult Zn (zn_point 6) \<lparr>private_key = 3\<rparr> = Inr (zn_point 18)"
    by (simp add: zn_mult CURVE_ORDER_def)
  have dleq: "step2_bob_dleq Zn (fixed_rng 7) (zn_point 6) \<lparr>private_key = 3\<rparr> []
                = Inr (\<lparr>private_key = 4\<rparr>, \<lparr>private_key = 19\<rparr>)"
    by (rule zn_dleq) simp
  from bdhke_round_trip [OF zn_spec zn_scalars(2) zn_coprime(1) zn_scalars(1) bf,
      where secret = "''secret''" and ?rnd2.0 = "fixed_rng 7"] finite
  obtain B' C' A C a_times_Y where
    r: "step1_alice Zn (fixed_rng 7) ''secret'' (Some \<lparr>private_key = 2\<rparr>) = Inr (B', \<lparr>private_key = 2\<rparr>)"
      "mult Zn B' \<lparr>private_key = 3\<rparr> = Inr C'"
      "step2_bob Zn (fixed_rng 7) B' \<lparr>private_key = 3\<rparr>
         = and_then (step2_bob_dleq Zn (fixed_rng 7) B' \<lparr>private_key = 3\<rparr> [])
             (\<lambda>(e, s). Inr (C', e, s))"
      "pubkey Zn \<lparr>private_key = 3\<rparr> = Inr A"
      "step3_alice Zn C' \<lparr>private_key = 2\<rparr> A = Inr C"
      "mult Zn (zn_point 4) \<lparr>private_key = 3\<rparr> = Inr a_times_Y"
      "pk_eq Zn C a_times_Y = Inr True"
      "verify Zn \<lparr>private_key = 3\<rparr> C ''secret'' = Some (Inr True)"
    by (auto simp: zn_secret)
  from r(1) have B': "B' = zn_point 6" by (simp add: zn_step1)
  from r(2) have C': "C' = zn_point 18" by (simp add: B' mult)
  from r(3) have "step2_bob Zn (fixed_rng 7) (zn_point 6) \<lparr>private_key = 3\<rparr>
       = Inr (zn_point 18, \<lparr>private_key = 4\<rparr>, \<lparr>private_key = 19\<rparr>)"
    by (simp add: B' C' dleq and_then_def)
  with r show ?thesis
    unfolding B' C' by blast
qed

text \<open>
  As stated for every valid blinding factor the claim fails: with \<open>Y = 4*G\<close> the
  blinding factor \<open>CURVE_ORDER - 4\<close> is valid, \<open>Y + r0*G\<close> is the point at infinity, and
  \<^verbatim>\<open>step1_alice\<close> throws, so that there is no \<open>(B', r)\<close> to go on with.
\<close>

theorem bdhke_round_trip_counterexample:
  "valid_scalar \<lparr>private_key = CURVE_ORDER - 4\<rparr>
   \<and> step1_alice Zn (fixed_rng 7) ''secret'' (Some \<lparr>private_key = CURVE_ORDER - 4\<rparr>)
       = Inl (Runtime_error ''Failed to combine public keys'')"
  by (simp add: valid_scalar_def is_valid_private_key_def step1_alice_def and_then_def zn_secret
      zn_ops CURVE_ORDER_def)

section \<open>Verification and its fallback\<close>

text \<open>
  Claim C3. For a valid issuer scalar \<open>a\<close> (coprime to \<open>CURVE_ORDER\<close>), a valid point \<open>C\<close>
  and a secret on which \<^verbatim>\<open>hash_to_curve\<close> returns \<open>Y\<close>: \<^verbatim>\<open>verify\<close> returns true when
  \<open>C\<close> equals \<open>a\<cdot>Y\<close>, without a look at the legacy variant; otherwise its result is that
  of \<^verbatim>\<open>verify_deprecated\<close>. So it returns true exactly when \<open>C\<close> equals \<open>a\<cdot>Y\<close> or \<open>C\<close>
  equals \<open>a\<close> times the point of \<^verbatim>\<open>hash_to_curve_deprecated\<close>.
\<close>

theorem verify_fallback:
  assumes spec: "secp256k1_spec E dl pt"
    and a: "valid_scalar a" "coprime (private_key a) CURVE_ORDER"
    and C: "valid_point E C"
    and Y: "hash_to_curve_string E secret = Inr Y"
  shows "\<exists>a_times_Y. mult E Y a = Inr a_times_Y
           \<and> verify E a C secret =
               (if pk_eq E C a_times_Y = Inr True then Some (Inr True)
                else verify_deprecated E a C secret)
           \<and> (verify E a C secret = Some (Inr True) \<longleftrightarrow>
                pk_eq E C a_times_Y = Inr True
                \<or> (\<exists>Y' a_times_Y'. hash_to_curve_deprecated E (bytes_of_string secret) = Some Y'
                      \<and> mult E Y' a = Inr a_times_Y' \<and> pk_eq E C a_times_Y' = Inr True))"
proof -
  note ck = compressed_key_valid [OF spec]
  have vY: "valid_point E Y" by (rule hash_to_curve_string_valid [OF Y])
  let ?aY = "compressed_key E (pt ((private_key a * pk_dl E dl Y) mod CURVE_ORDER))"
  have aY: "mult E Y a = Inr ?aY"
    by (rule mult_coprime [OF spec vY a])
  obtain b where b: "pk_eq E C ?aY = Inr b"
    by (simp add: pk_eq_eq [OF spec C ck])
  have v: "verify E a C secret =
             (if pk_eq E C ?aY = Inr True then Some (Inr True) else verify_deprecated E a C secret)"
    by (simp add: verify_def Y aY b and_then_def)
  have d: "verify_deprecated E a C secret = Some (Inr True) \<longleftrightarrow>
             (\<exists>Y' a_times_Y'. hash_to_curve_deprecated E (bytes_of_string secret) = Some Y'
                \<and> mult E Y' a = Inr a_times_Y' \<and> pk_eq E C a_times_Y' = Inr True)"
    by (auto simp: verify_deprecated_def and_then_def split: option.splits sum.splits)
  from aY v d show ?thesis
    by (intro exI [of _ ?aY]) auto
qed


theorem verify_fallback_witness:
  "\<exists>a_times_Y. mult Zn (zn_point 4) \<lparr>private_key = 3\<rparr> = Inr a_times_Y
     \<and> verify Zn \<lparr>private_key = 3\<rparr> (zn_point 3) ''secret'' =
         (if pk_eq Zn (zn_point 3) a_times_Y = Inr True then Some (Inr True)
          else verify_deprecated Zn \<lparr>private_key = 3\<rparr> (zn_point 3) ''secret'')
     \<and> (verify Zn \<lparr>private_key = 3\<rparr> (zn_point 3) ''secret'' = Some (Inr True) \<longleftrightarrow>
          pk_eq Zn (zn_point 3) a_times_Y = Inr True
          \<or> (\<exists>Y' a_times_Y'. hash_to_curve_deprecated Zn (bytes_of_string ''secret'') = Some Y'
                \<and> mult Zn Y' \<lparr>private_key = 3\<rparr> = Inr a_times_Y'
                \<and> pk_eq Zn (zn_point 3) a_times_Y' = Inr True))"
  by (rule verify_fallback [OF zn_spec zn_scalars(2) zn_coprime(1) zn_point_valid zn_secret])

section \<open>Completeness of the DLEQ proof\<close>

text \<open>
  Claim C2. For a valid point \<open>B'\<close>, a valid issuer scalar \<open>a\<close> with public key \<open>A\<close> and
  \<open>C' = a\<cdot>B'\<close>, and a valid nonce \<open>p\<close> handed over as its 32 bytes, the proof \<open>(e, s)\<close> that
  \<^verbatim>\<open>step2_bob_dleq\<close> returns passes \<^verbatim>\<open>alice_verify_dleq\<close>, and \<open>e\<close> is the SHA-256 hash of
  the lowercase hexadecimal uncompressed forms of \<open>R1 = p\<cdot>G\<close>, \<open>R2 = p\<cdot>B'\<close>, \<open>A\<close> and \<open>C'\<close>
  in this order. The scalars \<open>e\<close> and \<open>s\<close> are taken coprime to \<open>CURVE_ORDER\<close>, as every
  valid scalar is when \<open>CURVE_ORDER\<close> is prime.
\<close>

theorem dleq_complete:
  assumes spec: "secp256k1_spec E dl pt"
    and B: "valid_point E B'"
    and a: "valid_scalar a"
    and p: "valid_scalar p"
    and A: "pubkey E a = Inr A"
    and C: "mult E B' a = Inr C'"
    and dleq: "step2_bob_dleq E rnd B' a (serialize_key p) = Inr (e, s)"
    and cop: "coprime (private_key e) CURVE_ORDER" "coprime (private_key s) CURVE_ORDER"
  shows "alice_verify_dleq E B' C' e s A = Inr True
       \<and> (\<exists>R1 R2 h1 h2 h3 h4. pubkey E p = Inr R1 \<and> mult E B' p = Inr R2
            \<and> to_hex E R1 False = Inr h1 \<and> to_hex E R2 False = Inr h2
            \<and> to_hex E A False = Inr h3 \<and> to_hex E C' False = Inr h4
            \<and> serialize_key e = SHA256 E (bytes_of_string (h1 @ h2 @ h3 @ h4)))"
proof -
  note ck = compressed_key_valid [OF spec]
  let ?n = CURVE_ORDER and ?a = "private_key a" and ?p = "private_key p"
  let ?b = "pk_dl E dl B'"
  have an: "0 < ?a" "?a < ?n" using valid_scalarD [OF a] by simp_all
  have pn: "0 < ?p" "?p < ?n" using valid_scalarD [OF p] by simp_all
  have bn: "0 < ?b" "?b < ?n" using valid_point_pk_dl [OF spec B] by simp_all
  have "length (serialize_key p) = 32"
    by (simp add: serialize_key_def length_to_be)
  then have p_bytes: "serialize_key p \<noteq> []" "PrivateKey_of_bytes (serialize_key p) = Inr p"
    using pn
    by (auto simp: serialize_key_def PrivateKey_of_bytes_def validate_key_def
        is_valid_private_key_def from_be_scalar)
  have R1: "pubkey E p = Inr (compressed_key E (pt ?p))"
    by (rule pubkey_eq [OF spec p])
  have A': "A = compressed_key E (pt ?a)"
    using A by (simp add: pubkey_eq [OF spec a])
  let ?pb = "(?p * ?b) mod ?n" and ?ab = "(?a * ?b) mod ?n"
  have ab_nz: "?ab \<noteq> 0" and C': "C' = compressed_key E (pt ?ab)"
    using C by (auto simp: mult_eq [OF spec B a] split: if_splits)
  have abn: "0 < ?ab" "?ab < ?n" using mod_nonzero_range [OF ab_nz] by simp_all
  obtain p0 where p0: "fst (PrivateKey_random rnd) = Inr p0"
    using dleq by (cases "fst (PrivateKey_random rnd)")
      (auto simp: step2_bob_dleq_def and_then_def split: prod.splits)
  have pb_nz: "?pb \<noteq> 0"
    using dleq p0 p_bytes R1
    by (auto simp: step2_bob_dleq_def and_then_def mult_eq [OF spec B p]
        split: prod.splits if_splits)
  have pbn: "0 < ?pb" "?pb < ?n" using mod_nonzero_range [OF pb_nz] by simp_all
  have R2: "mult E B' p = Inr (compressed_key E (pt ?pb))"
    using pb_nz by (simp add: mult_eq [OF spec B p])
  let ?hex = "\<lambda>k. bytes_to_hex (secp256k1_ec_pubkey_serialize E (pt k) False)"
  let ?h = "sha256 E (bytes_of_string (?hex ?p @ ?hex ?pb @ ?hex ?a @ ?hex ?ab))"
  have hx: "to_hex E (compressed_key E (pt k)) False = Inr (?hex k)" if "0 < k" "k < ?n" for k
    by (simp add: to_hex_eq [OF spec ck] pk_dl_point [OF spec that])
  have he: "hash_e E (compressed_key E (pt ?p)) (compressed_key E (pt ?pb)) A C' = Inr ?h"
    by (simp add: hash_e_def and_then_def A' C' hx pn pbn an abn)
  from dleq p0 p_bytes R1 R2 C A he
  have rest: "and_then (PrivateKey_of_bytes ?h) (\<lambda>e.
                and_then (key_tweak_mul a (private_key e)) (\<lambda>a_times_e.
                and_then (key_tweak_add p (private_key a_times_e)) (\<lambda>s. Inr (e, s)))) = Inr (e, s)"
    by (auto simp: step2_bob_dleq_def and_then_def split: prod.splits)
  then obtain ae where e: "PrivateKey_of_bytes ?h = Inr e"
    and ae: "key_tweak_mul a (private_key e) = Inr ae"
    and s: "key_tweak_add p (private_key ae) = Inr s"
    by (auto simp: and_then_def split: sum.splits)
  let ?e = "private_key e" and ?s = "private_key s"
  have ve: "valid_scalar e" by (rule PrivateKey_of_bytes_valid [OF e])
  have en: "0 < ?e" "?e < ?n" using valid_scalarD [OF ve] by simp_all
  have len: "length ?h = 32" and e_val: "?e = from_be ?h"
    using e by (auto simp: PrivateKey_of_bytes_def validate_key_def split: if_splits)
  have ser_e: "serialize_key e = ?h"
    using to_be_from_be [of ?h] by (simp add: serialize_key_def e_val len)
  have ae_val: "private_key ae = (?a * ?e) mod ?n" and vae: "valid_scalar ae"
    using PrivateKey_of_int_valid [OF ae [unfolded key_tweak_mul_def]] an en
    by (simp_all add: smod_mod_positive)
  have ae_n: "0 < (?a * ?e) mod ?n" "(?a * ?e) mod ?n < ?n"
    using valid_scalarD [OF vae] by (simp_all add: ae_val)
  have s_val: "?s = (?p + ?a * ?e) mod ?n" and vs: "valid_scalar s"
    using PrivateKey_of_int_valid [OF s [unfolded key_tweak_add_def]] pn ae_n
    by (simp_all add: ae_val smod_mod_positive mod_simps)
  have sn: "0 < ?s" "?s < ?n" using valid_scalarD [OF vs] by simp_all
  have sG: "pubkey E s = Inr (compressed_key E (pt ?s))"
    by (rule pubkey_eq [OF spec vs])
  let ?ea = "(?e * ?a) mod ?n"
  have ea_n: "0 < ?ea" "?ea < ?n" using ae_n by (simp_all add: mult.commute)
  have eA: "mult E A e = Inr (compressed_key E (pt ?ea))"
    using ea_n by (simp add: A' mult_eq [OF spec ck ve] pk_dl_point [OF spec an])
  have d1: "(?s - ?ea) mod ?n = ?p"
  proof -
    have "(?s - ?ea) mod ?n = (?p + ?a * ?e - ?e * ?a) mod ?n"
      by (simp add: s_val mod_simps)
    also have "\<dots> = ?p" using pn by (simp add: mult.commute)
    finally show ?thesis .
  qed
  have R1': "pk_sub E (compressed_key E (pt ?s)) (compressed_key E (pt ?ea))
               = Inr (compressed_key E (pt ?p))"
    using pn by (simp add: pk_sub_eq [OF spec ck ck] pk_dl_point [OF spec sn]
        pk_dl_point [OF spec ea_n] d1)
  let ?sb = "(?s * ?b) mod ?n" and ?ec = "(?e * ?ab) mod ?n"
  have sb_n: "0 < ?sb" "?sb < ?n"
    using mod_nonzero_range [OF coprime_mult_nonzero [OF cop(2) bn]] by simp_all
  have ec_n: "0 < ?ec" "?ec < ?n"
    using mod_nonzero_range [OF coprime_mult_nonzero [OF cop(1) abn]] by simp_all
  have sB: "mult E B' s = Inr (compressed_key E (pt ?sb))"
    by (rule mult_coprime [OF spec B vs cop(2)])
  have eC: "mult E C' e = Inr (compressed_key E (pt ?ec))"
    using mult_coprime [OF spec ck ve cop(1), of "pt ?ab"]
    by (simp add: C' pk_dl_point [OF spec abn])
  have d2: "(?sb - ?ec) mod ?n = ?pb"
  proof -
    have "(?sb - ?ec) mod ?n = ((?p + ?a * ?e) * ?b - ?e * (?a * ?b)) mod ?n"
      by (simp add: s_val mod_simps)
    also have "(?p + ?a * ?e) * ?b - ?e * (?a * ?b) = ?p * ?b"
      by (simp add: algebra_simps)
    finally show ?thesis .
  qed
  have R2': "pk_sub E (compressed_key E (pt ?sb)) (compressed_key E (pt ?ec))
               = Inr (compressed_key E (pt ?pb))"
    using pb_nz by (simp add: pk_sub_eq [OF spec ck ck] pk_dl_point [OF spec sb_n]
        pk_dl_point [OF spec ec_n] d2)
  have "alice_verify_dleq E B' C' e s A = Inr True"
    by (simp add: alice_verify_dleq_def and_then_def sG eA [unfolded A'] A' [symmetric] eA R1'
        sB eC R2' he ser_e)
  moreover have "serialize_key e = SHA256 E (bytes_of_string (?hex ?p @ ?hex ?pb @ ?hex ?a @ ?hex ?ab))"
    by (simp add: ser_e sha256_def)
  ultimately show ?thesis
    using R1 R2 hx [OF pn] hx [OF pbn] hx [OF an] hx [OF abn]
    unfolding A' C' by blast
qed

theorem dleq_complete_witness:
  "alice_verify_dleq Zn (zn_point 6) (zn_point 18) \<lparr>private_key = 4\<rparr> \<lparr>private_key = 19\<rparr>
     (zn_point 3) = Inr True
   \<and> (\<exists>R1 R2 h1 h2 h3 h4. pubkey Zn \<lparr>private_key = 7\<rparr> = Inr R1
        \<and> mult Zn (zn_point 6) \<lparr>private_key = 7\<rparr> = Inr R2
        \<and> to_hex Zn R1 False = Inr h1 \<and> to_hex Zn R2 False = Inr h2
        \<and> to_hex Zn (zn_point 3) False = Inr h3 \<and> to_hex Zn (zn_point 18) False = Inr h4
        \<and> serialize_key \<lparr>private_key = 4\<rparr> = SHA256 Zn (bytes_of_string (h1 @ h2 @ h3 @ h4)))"
proof -
  have A: "pubkey Zn \<lparr>private_key = 3\<rparr> = Inr (zn_point 3)"
    by (simp add: zn_pubkey CURVE_ORDER_def)
  have C: "mult Zn (zn_point 6) \<lparr>private_key = 3\<rparr> = Inr (zn_point 18)"
    by (simp add: zn_mult CURVE_ORDER_def)
  have dleq: "step2_bob_dleq Zn (fixed_rng 7) (zn_point 6) \<lparr>private_key = 3\<rparr>
                (serialize_key \<lparr>private_key = 7\<rparr>) = Inr (\<lparr>private_key = 4\<rparr>, \<lparr>private_key = 19\<rparr>)"
    by (rule zn_dleq) simp
  show ?thesis
    by (rule dleq_complete [OF zn_spec zn_point_valid zn_scalars(2) zn_scalars(4) A C dleq
          zn_coprime(2) zn_coprime(3)])
qed

section \<open>The hash-to-curve algorithm\<close>

lemma byte_of_word32:
  assumes "k \<in> {0, 8, 16, 24}"
  shows "(ucast (drop_bit k (w :: 32 word) AND 0xFF) :: byte) = of_nat (unat w div 2 ^ k mod 256)"
proof -
  have m: "(0xFF :: 32 word) = mask 8"
    by (simp add: mask_eq_exp_minus_1)
  have "unat (ucast (drop_bit k w AND 0xFF) :: byte) = unat (of_nat (unat w div 2 ^ k mod 256) :: byte)"
    using assms unfolding m
    by (auto simp: unsigned_ucast_eq unsigned_and_eq unat_drop_bit_eq unat_of_nat take_bit_eq_mod
        drop_bit_eq_div unat_div unat_mod simp flip: take_bit_eq_mask)
  then show ?thesis
    by (simp add: word_unat_eq_iff)
qed

lemma uint32_to_le_bytes_eq:
  assumes "c < 2 ^ 32"
  shows "uint32_to_le_bytes (of_nat c) = le32 c"
proof -
  have u: "unat (of_nat c :: 32 word) = c"
    using assms by (simp add: unat_of_nat)
  show ?thesis
    using byte_of_word32 [of 0 "of_nat c"] byte_of_word32 [of 8 "of_nat c"]
      byte_of_word32 [of 16 "of_nat c"] byte_of_word32 [of 24 "of_nat c"]
    by (simp add: uint32_to_le_bytes_def le32_def u)
qed


lemma PublicKey_of_candidate:
  "PublicKey_of_bytes E (0x02 # hs) False =
     (if yields_point E (0x02 # hs) then Inr \<lparr>point_data = 0x02 # hs, is_compressed = True\<rparr>
      else if length hs = 32 then Inl (Invalid_argument ''Invalid public key point'')
      else Inl (Invalid_argument ''Invalid public key format''))"
  by (auto simp: PublicKey_of_bytes_def init_from_data_def validate_point_def yields_point_def
      split: option.splits)

lemma hash_to_curve_loop_find:
  assumes "N = 65536" and "c \<le> N"
  shows "hash_to_curve_loop E h (of_nat c) =
           (case find (\<lambda>k. yields_point E (0x02 # SHA256 E (h @ le32 k))) [c..<N] of
              Some k \<Rightarrow> Inr \<lparr>point_data = 0x02 # SHA256 E (h @ le32 k), is_compressed = True\<rparr>
            | None \<Rightarrow> Inl (Runtime_error ''No valid point found after 2^16 iterations''))"
  using assms(2)
proof (induction "N - c" arbitrary: c)
  case 0
  then have c: "c = 65536" using assms(1) by simp
  have e: "[c..<N] = []"
    using 0 by simp
  have "hash_to_curve_loop E h (of_nat c) = Inl (Runtime_error ''No valid point found after 2^16 iterations'')"
    by (subst hash_to_curve_loop.simps) (simp add: c)
  then show ?case
    by (simp only: e find.simps option.case)
next
  case (Suc n)
  then have c: "c < 65536" "c < N" using assms(1) by simp_all
  then have lt: "(of_nat c :: 32 word) < 65536"
    by (simp add: word_less_nat_alt unat_of_nat)
  have le: "uint32_to_le_bytes (of_nat c) = le32 c"
    using c by (intro uint32_to_le_bytes_eq) simp
  have nxt: "hash_to_curve_loop E h (of_nat c + 1) =
           (case find (\<lambda>k. yields_point E (0x02 # SHA256 E (h @ le32 k))) [Suc c..<N] of
              Some k \<Rightarrow> Inr \<lparr>point_data = 0x02 # SHA256 E (h @ le32 k), is_compressed = True\<rparr>
            | None \<Rightarrow> Inl (Runtime_error ''No valid point found after 2^16 iterations''))"
  proof -
    have "n = N - Suc c" "Suc c \<le> N"
      using Suc.hyps(2) c by simp_all
    from Suc.hyps(1) [OF this] show ?thesis
      by (simp add: add.commute)
  qed
  have upt: "[c..<N] = c # [Suc c..<N]"
    using c by (simp add: upt_conv_Cons)
  show ?case
    by (subst hash_to_curve_loop.simps)
      (simp add: lt le nxt upt Let_def sha256_def concat_vectors_def PublicKey_of_candidate)
qed

lemma find_upt_Some:
  "find P [0..<N] = Some c \<longleftrightarrow> c < N \<and> P c \<and> (\<forall>c'<c. \<not> P c')"
  by (auto simp: find_Some_iff)

lemma find_upt_None: "find P [0..<N] = None \<longleftrightarrow> (\<forall>c<N. \<not> P c)"
  by (auto simp: find_None_iff)


text \<open>
  Claim C4. \<^verbatim>\<open>hash_to_curve\<close> returns a point exactly when some counter below \<open>2^16\<close>
  yields a point of the curve, and then it returns the \<^verbatim>\<open>PublicKey\<close> whose bytes are the
  candidate of the smallest such counter: the byte 2 followed by the SHA-256 hash of
  \<open>h\<close> and the counter in four little-endian bytes, \<open>h\<close> being the hash of the domain
  separator followed by the message. It throws exactly when no counter below \<open>2^16\<close>
  yields a point, and then the error is the \<^verbatim>\<open>runtime_error\<close> of the exhausted loop. The
  domain separator is the text \<^verbatim>\<open>Secp256k1_HashToCurve_Cashu_\<close>.
\<close>

theorem hash_to_curve_algorithm:
  "(\<forall>P. hash_to_curve E m = Inr P \<longleftrightarrow>
          (\<exists>c<65536. P = \<lparr>point_data = candidate E m c, is_compressed = True\<rparr>
             \<and> yields_point E (candidate E m c)
             \<and> (\<forall>c'<c. \<not> yields_point E (candidate E m c'))))
   \<and> (\<forall>e. hash_to_curve E m = Inl e \<longleftrightarrow>
          e = Runtime_error ''No valid point found after 2^16 iterations''
          \<and> (\<forall>c<65536. \<not> yields_point E (candidate E m c)))
   \<and> DOMAIN_SEPARATOR = bytes_of_string ''Secp256k1_HashToCurve_Cashu_''"
proof -
  define N :: nat where "N = 65536"
  let ?ok = "\<lambda>c. yields_point E (candidate E m c)"
  let ?pk = "\<lambda>c. \<lparr>point_data = candidate E m c, is_compressed = True\<rparr>"
  let ?err = "Runtime_error ''No valid point found after 2^16 iterations''"
  have eq: "hash_to_curve E m = (case find ?ok [0..<N] of Some c \<Rightarrow> Inr (?pk c) | None \<Rightarrow> Inl ?err)"
    unfolding candidate_def
    using hash_to_curve_loop_find [OF N_def, of 0 E "SHA256 E (DOMAIN_SEPARATOR @ m)"]
    by (simp add: hash_to_curve_def Let_def sha256_def concat_vectors_def)
  have some: "find ?ok [0..<N] = Some c \<longleftrightarrow> c < N \<and> ?ok c \<and> (\<forall>c'<c. \<not> ?ok c')" for c
    by (rule find_upt_Some)
  have none: "find ?ok [0..<N] = None \<longleftrightarrow> (\<forall>c<N. \<not> ?ok c)"
    by (rule find_upt_None)
  have inr: "hash_to_curve E m = Inr P \<longleftrightarrow>
          (\<exists>c<N. P = ?pk c \<and> ?ok c \<and> (\<forall>c'<c. \<not> ?ok c'))" for P
  proof (cases "find ?ok [0..<N]")
    case None
    with none show ?thesis by (auto simp: eq)
  next
    case (Some c)
    then have c: "c < N" "?ok c" "\<forall>c'<c. \<not> ?ok c'" using some by blast+
    have uniq: "d = c" if "d < N" "?ok d" "\<forall>c'<d. \<not> ?ok c'" for d
      using that c by (meson linorder_neqE_nat)
    have r: "hash_to_curve E m = Inr (?pk c)"
      by (simp add: eq Some)
    show ?thesis
    proof
      assume "hash_to_curve E m = Inr P"
      with r have "P = ?pk c" by simp
      with c show "\<exists>c<N. P = ?pk c \<and> ?ok c \<and> (\<forall>c'<c. \<not> ?ok c')" by blast
    next
      assume "\<exists>c<N. P = ?pk c \<and> ?ok c \<and> (\<forall>c'<c. \<not> ?ok c')"
      then obtain d where d: "d < N" "P = ?pk d" "?ok d" "\<forall>c'<d. \<not> ?ok c'" by blast
      then have "d = c" using uniq by blast
      with d r show "hash_to_curve E m = Inr P" by simp
    qed
  qed
  have inl: "hash_to_curve E m = Inl e \<longleftrightarrow> e = ?err \<and> (\<forall>c<N. \<not> ?ok c)" for e
  proof (cases "find ?ok [0..<N]")
    case None
    with none show ?thesis by (auto simp: eq)
  next
    case (Some c)
    then have "c < N" "?ok c" using some by blast+
    then show ?thesis by (auto simp: eq Some)
  qed
  have ds: "DOMAIN_SEPARATOR = bytes_of_string ''Secp256k1_HashToCurve_Cashu_''"
    by (simp add: DOMAIN_SEPARATOR_def bytes_of_string_def)
  from inr inl ds show ?thesis unfolding N_def by blast
qed

theorem hash_to_curve_algorithm_witness:
  "\<exists>c<65536. zn_point 4 = \<lparr>point_data = candidate Zn (bytes_of_string ''secret'') c, is_compressed = True\<rparr>
     \<and> yields_point Zn (candidate Zn (bytes_of_string ''secret'') c)
     \<and> (\<forall>c'<c. \<not> yields_point Zn (candidate Zn (bytes_of_string ''secret'') c'))"
proof -
  have "hash_to_curve Zn (bytes_of_string ''secret'') = Inr (zn_point 4)"
    using zn_secret by (simp add: hash_to_curve_string_def)
  with hash_to_curve_algorithm [of Zn "bytes_of_string ''secret''"] show ?thesis
    by blast
qed

section \<open>The legacy derivation before 0.12\<close>
















section \<open>The keyset identifier\<close>

lemma insort_key_rel:
  assumes "list_all2 R xs ys" and "R x y" and "\<And>u v. R u v \<Longrightarrow> f u = g v"
  shows "list_all2 R (insort_key f x xs) (insort_key g y ys)"
  using assms(1)
proof (induction rule: list_all2_induct)
  case Nil
  with assms(2) show ?case by simp
next
  case (Cons u us v vs)
  have "f x = g y" "f u = g v" using assms(2,3) Cons.hyps(1) by blast+
  with Cons assms(2) show ?case by simp
qed

lemma sort_key_rel:
  assumes "list_all2 R xs ys" and "\<And>u v. R u v \<Longrightarrow> f u = g v"
  shows "list_all2 R (sort_key f xs) (sort_key g ys)"
  using assms(1)
proof (induction rule: list_all2_induct)
  case Nil
  show ?case by simp
next
  case (Cons u us v vs)
  then show ?case
    by (simp add: insort_key_rel [where R = R, OF _ _ assms(2)])
qed

lemma pk_eq_serialize:
  assumes "secp256k1_spec E dl pt" and "pk_eq E P Q = Inr True"
  shows "serialize E P c = serialize E Q c"
proof -
  from assms(2) have v: "valid_point E P" "valid_point E Q"
    by (auto simp: pk_eq_def to_data_def and_then_def valid_point_def split: option.splits)
  with assms have "pk_dl E dl P = pk_dl E dl Q"
    by (simp add: pk_eq_eq [OF assms(1)])
  then show ?thesis
    by (simp add: serialize_eq [OF assms(1)] v)
qed

lemma concat_serialized_rel:
  assumes "secp256k1_spec E dl pt"
    and "list_all2 (\<lambda>(a, P) (b, Q). a = b \<and> pk_eq E P Q = Inr True) xs ys"
  shows "concat_serialized E xs = concat_serialized E ys"
  using assms(2)
proof (induction rule: list_all2_induct)
  case Nil
  show ?case by simp
next
  case (Cons x xs y ys)
  obtain a P b Q where x: "x = (a, P)" and y: "y = (b, Q)"
    by (cases x, cases y)
  with Cons.hyps(1) have "serialize E P True = serialize E Q True"
    by (auto intro: pk_eq_serialize [OF assms(1)])
  with Cons.IH show ?case
    by (simp add: x y)
qed

lemma concat_serialized_valid:
  assumes "secp256k1_spec E dl pt" and "\<forall>(amount, P)\<in>set kvs. valid_point E P"
  shows "\<exists>ss. list_all2 (\<lambda>(amount, P) s. serialize E P True = Inr s) kvs ss
           \<and> concat_serialized E kvs = Inr (concat ss)"
  using assms(2)
proof (induction kvs)
  case Nil
  show ?case by simp
next
  case (Cons kv kvs)
  obtain a P where kv: "kv = (a, P)" by (cases kv)
  with Cons.prems have "valid_point E P" by simp
  then obtain s where s: "serialize E P True = Inr s"
    by (simp add: serialize_eq [OF assms(1)])
  from Cons obtain ss where ss: "list_all2 (\<lambda>(amount, P) s. serialize E P True = Inr s) kvs ss"
    "concat_serialized E kvs = Inr (concat ss)"
    by auto
  have "list_all2 (\<lambda>(amount, P) s. serialize E P True = Inr s) (kv # kvs) (s # ss)"
    using s ss(1) by (simp add: kv)
  moreover have "concat_serialized E (kv # kvs) = Inr (concat (s # ss))"
    by (simp add: kv s ss(2) and_then_def)
  ultimately show ?case by blast
qed


text \<open>
  Claim C6. For the entries of a keyset with pairwise distinct amounts and valid points,
  \<^verbatim>\<open>derive_keyset_id\<close> returns the text \<^verbatim>\<open>00\<close> followed by the first 14 hexadecimal
  characters of the SHA-256 hash of the compressed forms of the points, concatenated in
  ascending order of the amounts. The result is the same for every other order of the
  entries, and for entries whose points are equal (\<^verbatim>\<open>operator==\<close>) amount by amount.
\<close>

theorem derive_keyset_id_stable:
  assumes spec: "secp256k1_spec E dl pt"
    and valid: "\<forall>(amount, P)\<in>set keys. valid_point E P"
    and dist: "distinct (map fst keys)"
  shows "(\<exists>sorted_keys ss. mset sorted_keys = mset keys \<and> sorted (map fst sorted_keys)
            \<and> list_all2 (\<lambda>(amount, P) s. serialize E P True = Inr s) sorted_keys ss
            \<and> derive_keyset_id E keys
                = Inr (''00'' @ take 14 (bytes_to_hex (SHA256 E (concat ss)))))
       \<and> (\<forall>keys'. mset keys' = mset keys \<longrightarrow> derive_keyset_id E keys' = derive_keyset_id E keys)
       \<and> (\<forall>keys'. list_all2 (\<lambda>(a, P) (b, Q). a = b \<and> pk_eq E P Q = Inr True) keys keys'
             \<longrightarrow> derive_keyset_id E keys' = derive_keyset_id E keys)"
proof (intro conjI allI impI)
  let ?sorted = "sort_key fst keys"
  have "\<forall>(amount, P)\<in>set ?sorted. valid_point E P"
    using valid by simp
  from concat_serialized_valid [OF spec this]
  obtain ss where ss: "list_all2 (\<lambda>(amount, P) s. serialize E P True = Inr s) ?sorted ss"
    "concat_serialized E ?sorted = Inr (concat ss)"
    by blast
  have "derive_keyset_id E keys = Inr (''00'' @ take 14 (bytes_to_hex (SHA256 E (concat ss))))"
    by (simp add: derive_keyset_id_def ss(2) and_then_def sha256_def)
  moreover have "mset ?sorted = mset keys" "sorted (map fst ?sorted)"
    by simp_all
  ultimately show "\<exists>sorted_keys ss. mset sorted_keys = mset keys \<and> sorted (map fst sorted_keys)
            \<and> list_all2 (\<lambda>(amount, P) s. serialize E P True = Inr s) sorted_keys ss
            \<and> derive_keyset_id E keys
                = Inr (''00'' @ take 14 (bytes_to_hex (SHA256 E (concat ss))))"
    using ss(1) by blast
next
  fix keys' :: "(int \<times> PublicKey) list"
  assume m: "mset keys' = mset keys"
  have "inj_on fst (set keys)"
    using dist by (simp add: distinct_map)
  then have "sort_key fst keys = sort_key fst keys'"
    using m by (intro sort_key_eq_sort_key) simp_all
  then show "derive_keyset_id E keys' = derive_keyset_id E keys"
    by (simp add: derive_keyset_id_def)
next
  fix keys' :: "(int \<times> PublicKey) list"
  let ?R = "\<lambda>(a, P) (b, Q). a = b \<and> pk_eq E P Q = Inr True"
  assume "list_all2 ?R keys keys'"
  then have "list_all2 ?R (sort_key fst keys) (sort_key fst keys')"
    by (rule sort_key_rel) auto
  then have "concat_serialized E (sort_key fst keys) = concat_serialized E (sort_key fst keys')"
    by (rule concat_serialized_rel [OF spec])
  then show "derive_keyset_id E keys' = derive_keyset_id E keys"
    by (simp add: derive_keyset_id_def)
qed

theorem derive_keyset_id_stable_witness:
  "derive_keyset_id Zn [(1, zn_point 9), (2, zn_point 5)]
     = derive_keyset_id Zn [(2, zn_point 5), (1, zn_point 9)]"
proof -
  let ?keys = "[(2::int, zn_point 5), (1, zn_point 9)]"
  have valid: "\<forall>(amount, P)\<in>set ?keys. valid_point Zn P"
    by (simp add: zn_point_valid)
  have dist: "distinct (map fst ?keys)"
    by simp
  have "mset [(1, zn_point 9), (2, zn_point 5)] = mset ?keys"
    by simp
  with derive_keyset_id_stable [OF zn_spec valid dist] show ?thesis
    by blast
qed

section \<open>When DLEQ verification returns\<close>

lemma alice_verify_dleq_dl:
  assumes spec: "secp256k1_spec E dl pt"
    and pts: "valid_point E B'" "valid_point E C'" "valid_point E A"
    and e: "valid_scalar e" "coprime (private_key e) CURVE_ORDER"
    and s: "valid_scalar s" "coprime (private_key s) CURVE_ORDER"
  shows "if (private_key s - private_key e * pk_dl E dl A) mod CURVE_ORDER = 0
            \<or> (private_key s * pk_dl E dl B' - private_key e * pk_dl E dl C') mod CURVE_ORDER = 0
         then alice_verify_dleq E B' C' e s A = Inl (Runtime_error ''Failed to combine public keys'')
         else (\<exists>v. alice_verify_dleq E B' C' e s A = Inr v)"
proof -
  note ck = compressed_key_valid [OF spec]
  let ?n = CURVE_ORDER and ?e = "private_key e" and ?s = "private_key s"
  let ?a = "pk_dl E dl A" and ?b = "pk_dl E dl B'" and ?c = "pk_dl E dl C'"
  have sn: "0 < ?s" "?s < ?n" using valid_scalarD [OF s(1)] by simp_all
  have an: "0 < ?a" "?a < ?n" using valid_point_pk_dl [OF spec pts(3)] by simp_all
  have bn: "0 < ?b" "?b < ?n" using valid_point_pk_dl [OF spec pts(1)] by simp_all
  have cn: "0 < ?c" "?c < ?n" using valid_point_pk_dl [OF spec pts(2)] by simp_all
  let ?ea = "(?e * ?a) mod ?n" and ?sb = "(?s * ?b) mod ?n" and ?ec = "(?e * ?c) mod ?n"
  have ean: "0 < ?ea" "?ea < ?n"
    using mod_nonzero_range [OF coprime_mult_nonzero [OF e(2) an]] by simp_all
  have sbn: "0 < ?sb" "?sb < ?n"
    using mod_nonzero_range [OF coprime_mult_nonzero [OF s(2) bn]] by simp_all
  have ecn: "0 < ?ec" "?ec < ?n"
    using mod_nonzero_range [OF coprime_mult_nonzero [OF e(2) cn]] by simp_all
  let ?d1 = "(?s - ?e * ?a) mod ?n" and ?d2 = "(?s * ?b - ?e * ?c) mod ?n"
  have m1: "(?s - ?ea) mod ?n = ?d1" by (simp add: mod_simps)
  have m2: "(?sb - ?ec) mod ?n = ?d2" by (simp add: mod_simps)
  have sG: "pubkey E s = Inr (compressed_key E (pt ?s))" by (rule pubkey_eq [OF spec s(1)])
  have eA: "mult E A e = Inr (compressed_key E (pt ?ea))" by (rule mult_coprime [OF spec pts(3) e])
  have sB: "mult E B' s = Inr (compressed_key E (pt ?sb))" by (rule mult_coprime [OF spec pts(1) s])
  have eC: "mult E C' e = Inr (compressed_key E (pt ?ec))" by (rule mult_coprime [OF spec pts(2) e])
  have sub1: "pk_sub E (compressed_key E (pt ?s)) (compressed_key E (pt ?ea)) =
                (if ?d1 = 0 then Inl (Runtime_error ''Failed to combine public keys'')
                 else Inr (compressed_key E (pt ?d1)))"
    unfolding pk_sub_eq [OF spec ck ck] pk_dl_point [OF spec sn] pk_dl_point [OF spec ean] m1 ..
  have sub2: "pk_sub E (compressed_key E (pt ?sb)) (compressed_key E (pt ?ec)) =
                (if ?d2 = 0 then Inl (Runtime_error ''Failed to combine public keys'')
                 else Inr (compressed_key E (pt ?d2)))"
    unfolding pk_sub_eq [OF spec ck ck] pk_dl_point [OF spec sbn] pk_dl_point [OF spec ecn] m2 ..
  obtain h where h: "hash_e E (compressed_key E (pt ?d1)) (compressed_key E (pt ?d2)) A C' = Inr h"
    by (simp add: hash_e_def and_then_def to_hex_eq [OF spec ck] to_hex_eq [OF spec pts(3)]
        to_hex_eq [OF spec pts(2)])
  show ?thesis
    by (simp add: alice_verify_dleq_def and_then_def sG eA sB eC sub1 sub2 h)
qed

lemma carol_reconstruct:
  assumes spec: "secp256k1_spec E dl pt"
    and pts: "valid_point E C" "valid_point E A" "valid_point E Y"
    and r: "valid_scalar r" "coprime (private_key r) CURVE_ORDER"
  shows "and_then (mult E A r) (\<lambda>r_times_A.
         and_then (pk_add E C r_times_A) (\<lambda>C'.
         and_then (pubkey E r) (\<lambda>r_times_G.
         and_then (pk_add E Y r_times_G) (\<lambda>B'. F B' C')))) =
           (if (pk_dl E dl C + private_key r * pk_dl E dl A) mod CURVE_ORDER = 0
               \<or> (pk_dl E dl Y + private_key r) mod CURVE_ORDER = 0
            then Inl (Runtime_error ''Failed to combine public keys'')
            else F (compressed_key E (pt ((pk_dl E dl Y + private_key r) mod CURVE_ORDER)))
                   (compressed_key E (pt ((pk_dl E dl C + private_key r * pk_dl E dl A) mod CURVE_ORDER))))"
proof -
  note ck = compressed_key_valid [OF spec]
  let ?n = CURVE_ORDER and ?r = "private_key r"
  let ?a = "pk_dl E dl A" and ?c = "pk_dl E dl C" and ?y = "pk_dl E dl Y"
  have rn: "0 < ?r" "?r < ?n" using valid_scalarD [OF r(1)] by simp_all
  have an: "0 < ?a" "?a < ?n" using valid_point_pk_dl [OF spec pts(2)] by simp_all
  let ?ra = "(?r * ?a) mod ?n"
  have ran: "0 < ?ra" "?ra < ?n"
    using mod_nonzero_range [OF coprime_mult_nonzero [OF r(2) an]] by simp_all
  have m: "(?c + ?ra) mod ?n = (?c + ?r * ?a) mod ?n" by (simp add: mod_simps)
  have rA: "mult E A r = Inr (compressed_key E (pt ?ra))" by (rule mult_coprime [OF spec pts(2) r])
  have rG: "pubkey E r = Inr (compressed_key E (pt ?r))" by (rule pubkey_eq [OF spec r(1)])
  have addC: "pk_add E C (compressed_key E (pt ?ra)) =
                (if (?c + ?r * ?a) mod ?n = 0 then Inl (Runtime_error ''Failed to combine public keys'')
                 else Inr (compressed_key E (pt ((?c + ?r * ?a) mod ?n))))"
    unfolding pk_add_eq [OF spec pts(1) ck] pk_dl_point [OF spec ran] m ..
  have addY: "pk_add E Y (compressed_key E (pt ?r)) =
                (if (?y + ?r) mod ?n = 0 then Inl (Runtime_error ''Failed to combine public keys'')
                 else Inr (compressed_key E (pt ((?y + ?r) mod ?n))))"
    unfolding pk_add_eq [OF spec pts(3) ck] pk_dl_point [OF spec rn] ..
  show ?thesis
    by (simp add: rA rG addC addY and_then_def)
qed

text \<open>
  Claim C10, as amended. The inputs are valid points \<open>B'\<close>, \<open>C'\<close>, \<open>A\<close>, \<open>C\<close> and valid
  scalars \<open>e\<close>, \<open>s\<close>, \<open>r\<close> prime to the group order. Every throw below is
  \<^verbatim>\<open>runtime_error("Failed to combine public keys")\<close>, raised when a sum or difference of
  points is the point at infinity.

  \<^verbatim>\<open>alice_verify_dleq\<close> computes \<open>R1 = s*G - e*A\<close> and \<open>R2 = s*B' - e*C'\<close>; the four
  products exist, and

  \<^item> if \<open>s*G = e*A\<close> or \<open>s*B' = e*C'\<close> the function throws;
  \<^item> otherwise both differences and the challenge hash exist and the function returns
    the boolean \<open>hash_e(R1, R2, A, C') = e\<close>: a proof that does not verify yields
    \<open>false\<close>.

  \<^verbatim>\<open>carol_verify_dleq\<close> passes on the error of \<^verbatim>\<open>hash_to_curve\<close> if there is one. With
  \<open>Y\<close> the point of \<^verbatim>\<open>hash_to_curve\<close>, \<open>C1 = C + r*A\<close> and \<open>B1 = Y + r*G\<close>, written
  here through the discrete logarithms \<open>c1\<close> and \<open>b1\<close>:

  \<^item> if \<open>C1\<close> or \<open>B1\<close> is the point at infinity, or \<open>s*G = e*A\<close>, or \<open>s*B1 = e*C1\<close>, the
    function throws;
  \<^item> otherwise \<^verbatim>\<open>alice_verify_dleq\<close> returns a boolean on \<open>B1\<close>, \<open>C1\<close>; if it is \<open>true\<close>
    the function returns \<open>true\<close>;
  \<^item> if it is \<open>false\<close> the legacy path runs: when \<^verbatim>\<open>hash_to_curve_deprecated\<close> does not
    return, neither does the function; with its point \<open>Y'\<close> and \<open>B2 = Y' + r*G\<close>, the
    function throws if \<open>B2\<close> is the point at infinity or \<open>s*B2 = e*C1\<close>, and otherwise
    returns the boolean that \<^verbatim>\<open>alice_verify_dleq\<close> returns on \<open>B2\<close>, \<open>C1\<close>.
\<close>

theorem dleq_verification_results:
  assumes spec: "secp256k1_spec E dl pt"
    and pts: "valid_point E B'" "valid_point E C'" "valid_point E A"
    and e: "valid_scalar e" "coprime (private_key e) CURVE_ORDER"
    and s: "valid_scalar s" "coprime (private_key s) CURVE_ORDER"
    and C: "valid_point E C"
    and r: "valid_scalar r" "coprime (private_key r) CURVE_ORDER"
  shows "(\<exists>sG eA sB eC.
            pubkey E s = Inr sG \<and> mult E A e = Inr eA \<and> mult E B' s = Inr sB \<and> mult E C' e = Inr eC
            \<and> (pk_eq E sG eA = Inr True \<or> pk_eq E sB eC = Inr True \<longrightarrow>
                 alice_verify_dleq E B' C' e s A = Inl (Runtime_error ''Failed to combine public keys''))
            \<and> (pk_eq E sG eA = Inr False \<and> pk_eq E sB eC = Inr False \<longrightarrow>
                 (\<exists>R1 R2 h. pk_sub E sG eA = Inr R1 \<and> pk_sub E sB eC = Inr R2
                    \<and> hash_e E R1 R2 A C' = Inr h
                    \<and> alice_verify_dleq E B' C' e s A = Inr (h = serialize_key e))))
       \<and> (case hash_to_curve_string E secret of
            Inl err \<Rightarrow> carol_verify_dleq E secret r C e s A = Some (Inl err)
          | Inr Y \<Rightarrow>
              (let c1 = (pk_dl E dl C + private_key r * pk_dl E dl A) mod CURVE_ORDER;
                   b1 = (pk_dl E dl Y + private_key r) mod CURVE_ORDER
               in if c1 = 0 \<or> b1 = 0
                     \<or> (private_key s - private_key e * pk_dl E dl A) mod CURVE_ORDER = 0
                     \<or> (private_key s * b1 - private_key e * c1) mod CURVE_ORDER = 0
                  then carol_verify_dleq E secret r C e s A
                         = Some (Inl (Runtime_error ''Failed to combine public keys''))
                  else (\<exists>rA rG C1 B1 v.
                          mult E A r = Inr rA \<and> pk_add E C rA = Inr C1
                          \<and> pubkey E r = Inr rG \<and> pk_add E Y rG = Inr B1
                          \<and> alice_verify_dleq E B1 C1 e s A = Inr v
                          \<and> (if v then carol_verify_dleq E secret r C e s A = Some (Inr True)
                             else (case hash_to_curve_deprecated E (bytes_of_string secret) of
                                     None \<Rightarrow> carol_verify_dleq E secret r C e s A = None
                                   | Some Y' \<Rightarrow>
                                       (let b2 = (pk_dl E dl Y' + private_key r) mod CURVE_ORDER
                                        in if b2 = 0
                                              \<or> (private_key s * b2 - private_key e * c1) mod CURVE_ORDER = 0
                                           then carol_verify_dleq E secret r C e s A
                                                  = Some (Inl (Runtime_error ''Failed to combine public keys''))
                                           else (\<exists>B2 w. pk_add E Y' rG = Inr B2
                                                   \<and> alice_verify_dleq E B2 C1 e s A = Inr w
                                                   \<and> carol_verify_dleq E secret r C e s A
                                                       = Some (Inr w))))))))"
    (is "?alice \<and> ?carol")
proof (rule conjI)
  note ck = compressed_key_valid [OF spec]
  let ?n = CURVE_ORDER and ?e = "private_key e" and ?s = "private_key s"
  let ?a = "pk_dl E dl A" and ?b = "pk_dl E dl B'" and ?c = "pk_dl E dl C'"
  have sn: "0 < ?s" "?s < ?n" using valid_scalarD [OF s(1)] by simp_all
  have an: "0 < ?a" "?a < ?n" using valid_point_pk_dl [OF spec pts(3)] by simp_all
  have bn: "0 < ?b" "?b < ?n" using valid_point_pk_dl [OF spec pts(1)] by simp_all
  have cn: "0 < ?c" "?c < ?n" using valid_point_pk_dl [OF spec pts(2)] by simp_all
  let ?ea = "(?e * ?a) mod ?n" and ?sb = "(?s * ?b) mod ?n" and ?ec = "(?e * ?c) mod ?n"
  have ean: "0 < ?ea" "?ea < ?n"
    using mod_nonzero_range [OF coprime_mult_nonzero [OF e(2) an]] by simp_all
  have sbn: "0 < ?sb" "?sb < ?n"
    using mod_nonzero_range [OF coprime_mult_nonzero [OF s(2) bn]] by simp_all
  have ecn: "0 < ?ec" "?ec < ?n"
    using mod_nonzero_range [OF coprime_mult_nonzero [OF e(2) cn]] by simp_all
  let ?sG = "compressed_key E (pt ?s)" and ?eA = "compressed_key E (pt ?ea)"
  let ?sB = "compressed_key E (pt ?sb)" and ?eC = "compressed_key E (pt ?ec)"
  have sG: "pubkey E s = Inr ?sG" by (rule pubkey_eq [OF spec s(1)])
  have eA: "mult E A e = Inr ?eA" by (rule mult_coprime [OF spec pts(3) e])
  have sB: "mult E B' s = Inr ?sB" by (rule mult_coprime [OF spec pts(1) s])
  have eC: "mult E C' e = Inr ?eC" by (rule mult_coprime [OF spec pts(2) e])
  have eq1: "pk_eq E ?sG ?eA = Inr (?s = ?ea)"
    by (simp add: pk_eq_eq [OF spec ck ck] pk_dl_point [OF spec sn] pk_dl_point [OF spec ean])
  have eq2: "pk_eq E ?sB ?eC = Inr (?sb = ?ec)"
    by (simp add: pk_eq_eq [OF spec ck ck] pk_dl_point [OF spec sbn] pk_dl_point [OF spec ecn])
  have z1: "(?s - ?ea) mod ?n = 0 \<longleftrightarrow> ?s = ?ea"
    using sn ean by (metis mod_pos_pos_trivial less_imp_le mod_eq_dvd_iff dvd_eq_mod_eq_0 mod_0)
  have z2: "(?sb - ?ec) mod ?n = 0 \<longleftrightarrow> ?sb = ?ec"
    using sbn ecn by (metis mod_pos_pos_trivial less_imp_le mod_eq_dvd_iff dvd_eq_mod_eq_0 mod_0)
  have sub1: "pk_sub E ?sG ?eA =
                (if ?s = ?ea then Inl (Runtime_error ''Failed to combine public keys'')
                 else Inr (compressed_key E (pt ((?s - ?ea) mod ?n))))"
    by (simp add: pk_sub_eq [OF spec ck ck] pk_dl_point [OF spec sn] pk_dl_point [OF spec ean] z1)
  have sub2: "pk_sub E ?sB ?eC =
                (if ?sb = ?ec then Inl (Runtime_error ''Failed to combine public keys'')
                 else Inr (compressed_key E (pt ((?sb - ?ec) mod ?n))))"
    by (simp add: pk_sub_eq [OF spec ck ck] pk_dl_point [OF spec sbn] pk_dl_point [OF spec ecn] z2)
  have thrown: "alice_verify_dleq E B' C' e s A = Inl (Runtime_error ''Failed to combine public keys'')"
    if "?s = ?ea \<or> ?sb = ?ec"
    using that by (auto simp: alice_verify_dleq_def and_then_def sG eA sB eC sub1 sub2)
  have returned: "\<exists>R1 R2 h. pk_sub E ?sG ?eA = Inr R1 \<and> pk_sub E ?sB ?eC = Inr R2
                    \<and> hash_e E R1 R2 A C' = Inr h
                    \<and> alice_verify_dleq E B' C' e s A = Inr (h = serialize_key e)"
    if ne: "?s \<noteq> ?ea" "?sb \<noteq> ?ec"
  proof -
    let ?R1 = "compressed_key E (pt ((?s - ?ea) mod ?n))"
    let ?R2 = "compressed_key E (pt ((?sb - ?ec) mod ?n))"
    obtain h where h: "hash_e E ?R1 ?R2 A C' = Inr h"
      by (simp add: hash_e_def and_then_def to_hex_eq [OF spec ck] to_hex_eq [OF spec pts(3)]
          to_hex_eq [OF spec pts(2)])
    have "alice_verify_dleq E B' C' e s A = Inr (h = serialize_key e)"
      using ne by (simp add: alice_verify_dleq_def and_then_def sG eA sB eC sub1 sub2 h)
    with ne h show ?thesis
      by (simp add: sub1 sub2)
  qed
  show ?alice
    apply (rule exI [where x = ?sG])
    apply (rule exI [where x = ?eA])
    apply (rule exI [where x = ?sB])
    apply (rule exI [where x = ?eC])
    using sG eA sB eC thrown returned unfolding eq1 eq2
    apply simp
    done
next
  note ck = compressed_key_valid [OF spec]
  let ?K = "carol_verify_dleq E secret r C e s A"
  let ?RE = "Runtime_error ''Failed to combine public keys''"
  let ?n = CURVE_ORDER and ?e = "private_key e" and ?s = "private_key s" and ?r = "private_key r"
  let ?a = "pk_dl E dl A" and ?c = "pk_dl E dl C"
  let ?c1 = "(?c + ?r * ?a) mod ?n"
  let ?C1 = "compressed_key E (pt ?c1)"
  let ?rA = "compressed_key E (pt ((?r * ?a) mod ?n))" and ?rG = "compressed_key E (pt ?r)"
  have rn: "0 < ?r" "?r < ?n" using valid_scalarD [OF r(1)] by simp_all
  have an: "0 < ?a" "?a < ?n" using valid_point_pk_dl [OF spec pts(3)] by simp_all
  have ran: "0 < (?r * ?a) mod ?n" "(?r * ?a) mod ?n < ?n"
    using mod_nonzero_range [OF coprime_mult_nonzero [OF r(2) an]] by simp_all
  have rA: "mult E A r = Inr ?rA" by (rule mult_coprime [OF spec pts(3) r])
  have rG: "pubkey E r = Inr ?rG" by (rule pubkey_eq [OF spec r(1)])
  have addC: "pk_add E C ?rA = Inr ?C1" if "?c1 \<noteq> 0"
  proof -
    have "(?c + (?r * ?a) mod ?n) mod ?n = ?c1" by (simp add: mod_simps)
    with that show ?thesis
      by (simp add: pk_add_eq [OF spec C ck] pk_dl_point [OF spec ran])
  qed
  have addY: "pk_add E P ?rG = Inr (compressed_key E (pt ((pk_dl E dl P + ?r) mod ?n)))"
    if "valid_point E P" "(pk_dl E dl P + ?r) mod ?n \<noteq> 0" for P
    using that by (simp add: pk_add_eq [OF spec that(1) ck] pk_dl_point [OF spec rn])
  have alice: "if (?s - ?e * ?a) mod ?n = 0 \<or> (?s * b - ?e * ?c1) mod ?n = 0
               then alice_verify_dleq E (compressed_key E (pt b)) ?C1 e s A = Inl ?RE
               else (\<exists>v. alice_verify_dleq E (compressed_key E (pt b)) ?C1 e s A = Inr v)"
    if "?c1 \<noteq> 0" "0 < b" "b < ?n" for b
  proof -
    have c1: "0 < ?c1" "?c1 < ?n" using mod_nonzero_range [OF that(1)] by simp_all
    show ?thesis
      using alice_verify_dleq_dl [OF spec ck [of "pt b"] ck [of "pt ?c1"] pts(3) e s]
      by (simp only: pk_dl_point [OF spec that(2,3)] pk_dl_point [OF spec c1])
  qed
  show ?carol
  proof (cases "hash_to_curve_string E secret")
    case (Inl err)
    then show ?thesis
      by (simp add: carol_verify_dleq_def and_then_def)
  next
    case (Inr Y)
    have vY: "valid_point E Y" by (rule hash_to_curve_string_valid [OF Inr])
    let ?b1 = "(pk_dl E dl Y + ?r) mod ?n"
    let ?B1 = "compressed_key E (pt ?b1)"
    have primary: "?K = (case (if ?c1 = 0 \<or> ?b1 = 0 then Inl ?RE
                               else alice_verify_dleq E ?B1 ?C1 e s A) of
                           Inl err \<Rightarrow> Some (Inl err)
                         | Inr valid \<Rightarrow>
                             if \<not> valid then carol_verify_dleq_deprecated E secret r C e s A
                             else Some (Inr valid))"
      unfolding carol_verify_dleq_def Inr
      by (simp only: and_then_def [of "Inr Y"] sum.case carol_reconstruct [OF spec C pts(3) vY r])
    show ?thesis
    proof (cases "?c1 = 0 \<or> ?b1 = 0 \<or> (?s - ?e * ?a) mod ?n = 0 \<or> (?s * ?b1 - ?e * ?c1) mod ?n = 0")
      case True
      have "?K = Some (Inl ?RE)"
      proof (cases "?c1 = 0 \<or> ?b1 = 0")
        case True
        then show ?thesis unfolding primary by auto
      next
        case False
        then have b1: "0 < ?b1" "?b1 < ?n" using mod_nonzero_range [of "pk_dl E dl Y + ?r"] by simp_all
        from False True alice [OF _ b1]
        have "alice_verify_dleq E ?B1 ?C1 e s A = Inl ?RE" by auto
        with False show ?thesis unfolding primary by simp
      qed
      with True Inr show ?thesis by (simp add: Let_def)
    next
      case False
      then have nz: "?c1 \<noteq> 0" "?b1 \<noteq> 0" by simp_all
      have b1: "0 < ?b1" "?b1 < ?n" using mod_nonzero_range [OF nz(2)] by simp_all
      from False alice [OF nz(1) b1]
      obtain v where v: "alice_verify_dleq E ?B1 ?C1 e s A = Inr v" by auto
      have K: "?K = (if v then Some (Inr True) else carol_verify_dleq_deprecated E secret r C e s A)"
        unfolding primary using nz by (simp add: v)
      have legacy: "if v then ?K = Some (Inr True)
                    else (case hash_to_curve_deprecated E (bytes_of_string secret) of
                            None \<Rightarrow> ?K = None
                          | Some Y' \<Rightarrow>
                              (let b2 = (pk_dl E dl Y' + ?r) mod ?n
                               in if b2 = 0 \<or> (?s * b2 - ?e * ?c1) mod ?n = 0
                                  then ?K = Some (Inl ?RE)
                                  else (\<exists>B2 w. pk_add E Y' ?rG = Inr B2
                                          \<and> alice_verify_dleq E B2 ?C1 e s A = Inr w
                                          \<and> ?K = Some (Inr w))))"
      proof (cases v)
        case True
        with K show ?thesis by simp
      next
        case notv: False
        show ?thesis
        proof (cases "hash_to_curve_deprecated E (bytes_of_string secret)")
          case None
          with K notv show ?thesis by (simp add: carol_verify_dleq_deprecated_def)
        next
          case (Some Y')
          have vY': "valid_point E Y'" by (rule hash_to_curve_deprecated_valid [OF Some])
          let ?b2 = "(pk_dl E dl Y' + ?r) mod ?n"
          let ?B2 = "compressed_key E (pt ?b2)"
          have K2: "?K = Some (if ?b2 = 0 then Inl ?RE else alice_verify_dleq E ?B2 ?C1 e s A)"
            using K notv nz(1)
            by (simp add: carol_verify_dleq_deprecated_def Some
                carol_reconstruct [OF spec C pts(3) vY' r])
          show ?thesis
          proof (cases "?b2 = 0 \<or> (?s * ?b2 - ?e * ?c1) mod ?n = 0")
            case True
            have "?K = Some (Inl ?RE)"
            proof (cases "?b2 = 0")
              case True
              with K2 show ?thesis by simp
            next
              case b2nz: False
              then have b2: "0 < ?b2" "?b2 < ?n" using mod_nonzero_range [OF b2nz] by simp_all
              from False True b2nz alice [OF nz(1) b2]
              have "alice_verify_dleq E ?B2 ?C1 e s A = Inl ?RE" by auto
              with K2 b2nz show ?thesis by simp
            qed
            with True notv Some show ?thesis by (simp add: Let_def)
          next
            case fin: False
            then have b2nz: "?b2 \<noteq> 0" by simp
            have b2: "0 < ?b2" "?b2 < ?n" using mod_nonzero_range [OF b2nz] by simp_all
            from False fin alice [OF nz(1) b2]
            obtain w where w: "alice_verify_dleq E ?B2 ?C1 e s A = Inr w" by auto
            have "pk_add E Y' ?rG = Inr ?B2 \<and> alice_verify_dleq E ?B2 ?C1 e s A = Inr w
                    \<and> ?K = Some (Inr w)"
              using addY [OF vY' b2nz] w K2 b2nz by simp
            then have "\<exists>B2 w. pk_add E Y' ?rG = Inr B2
                          \<and> alice_verify_dleq E B2 ?C1 e s A = Inr w \<and> ?K = Some (Inr w)"
              by blast
            with fin notv Some show ?thesis by (simp add: Let_def)
          qed
        qed
      qed
      have "mult E A r = Inr ?rA \<and> pk_add E C ?rA = Inr ?C1
              \<and> pubkey E r = Inr ?rG \<and> pk_add E Y ?rG = Inr ?B1
              \<and> alice_verify_dleq E ?B1 ?C1 e s A = Inr v"
        using rA rG addC [OF nz(1)] addY [OF vY nz(2)] v by simp
      with legacy have "\<exists>rA rG C1 B1 v.
                          mult E A r = Inr rA \<and> pk_add E C rA = Inr C1
                          \<and> pubkey E r = Inr rG \<and> pk_add E Y rG = Inr B1
                          \<and> alice_verify_dleq E B1 C1 e s A = Inr v
                          \<and> (if v then ?K = Some (Inr True)
                             else (case hash_to_curve_deprecated E (bytes_of_string secret) of
                                     None \<Rightarrow> ?K = None
                                   | Some Y' \<Rightarrow>
                                       (let b2 = (pk_dl E dl Y' + ?r) mod ?n
                                        in if b2 = 0 \<or> (?s * b2 - ?e * ?c1) mod ?n = 0
                                           then ?K = Some (Inl ?RE)
                                           else (\<exists>B2 w. pk_add E Y' rG = Inr B2
                                                   \<and> alice_verify_dleq E B2 C1 e s A = Inr w
                                                   \<and> ?K = Some (Inr w)))))"
        by blast
      with False Inr show ?thesis by (simp add: Let_def)
    qed
  qed
qed

text \<open>
  The theorem at a proof that verifies, for Alice and for Carol
  (\<open>a = 3\<close>, \<open>r = 2\<close>, \<open>Y = 4*G\<close>, \<open>e = 4\<close>, \<open>s = 19\<close>).
\<close>

theorem dleq_verification_results_witness:
  "alice_verify_dleq Zn (zn_point 6) (zn_point 18) \<lparr>private_key = 4\<rparr> \<lparr>private_key = 19\<rparr>
     (zn_point 3) = Inr True
   \<and> carol_verify_dleq Zn ''secret'' \<lparr>private_key = 2\<rparr> (zn_point 12) \<lparr>private_key = 4\<rparr>
       \<lparr>private_key = 19\<rparr> (zn_point 3) = Some (Inr True)"
proof -
  have r: "coprime (private_key \<lparr>private_key = 2\<rparr>) CURVE_ORDER"
    by code_simp
  note results = dleq_verification_results [where E = Zn and dl = zn_dl and pt = zn_pt
      and B' = "zn_point 6" and C' = "zn_point 18" and A = "zn_point 3"
      and e = "\<lparr>private_key = 4\<rparr>" and s = "\<lparr>private_key = 19\<rparr>"
      and secret = "''secret''" and r = "\<lparr>private_key = 2\<rparr>" and C = "zn_point 12",
      OF zn_spec zn_point_valid zn_point_valid zn_point_valid zn_scalars(3) zn_coprime(2)
        zn_scalars(5) zn_coprime(3) zn_point_valid zn_scalars(1) r]
  have ops: "pubkey Zn \<lparr>private_key = 19\<rparr> = Inr (zn_point 19)"
    "mult Zn (zn_point 3) \<lparr>private_key = 4\<rparr> = Inr (zn_point 12)"
    "mult Zn (zn_point 6) \<lparr>private_key = 19\<rparr> = Inr (zn_point 114)"
    "mult Zn (zn_point 18) \<lparr>private_key = 4\<rparr> = Inr (zn_point 72)"
    "pk_eq Zn (zn_point 19) (zn_point 12) = Inr False"
    "pk_eq Zn (zn_point 114) (zn_point 72) = Inr False"
    "pk_sub Zn (zn_point 19) (zn_point 12) = Inr (zn_point 7)"
    "pk_sub Zn (zn_point 114) (zn_point 72) = Inr (zn_point 42)"
    by (simp_all add: zn_ops CURVE_ORDER_def)
  have challenge: "hash_e Zn (zn_point 7) (zn_point 42) (zn_point 3) (zn_point 18)
                     = Inr (serialize_key \<lparr>private_key = 4\<rparr>)"
    by (simp add: hash_e_def and_then_def zn_to_hex sha256_def Zn_SHA256 zn_challenge
        serialize_key_def CURVE_ORDER_def)
  have alice: "alice_verify_dleq Zn (zn_point 6) (zn_point 18) \<lparr>private_key = 4\<rparr>
                 \<lparr>private_key = 19\<rparr> (zn_point 3) = Inr True"
    using conjunct1 [OF results] by (auto simp: ops challenge)
  have steps: "mult Zn (zn_point 3) \<lparr>private_key = 2\<rparr> = Inr (zn_point 6)"
    "pk_add Zn (zn_point 12) (zn_point 6) = Inr (zn_point 18)"
    "pubkey Zn \<lparr>private_key = 2\<rparr> = Inr (zn_point 2)"
    "pk_add Zn (zn_point 4) (zn_point 2) = Inr (zn_point 6)"
    by (simp_all add: zn_ops CURVE_ORDER_def)
  have dls: "pk_dl Zn zn_dl (zn_point 12) = 12" "pk_dl Zn zn_dl (zn_point 3) = 3"
    "pk_dl Zn zn_dl (zn_point 4) = 4"
    by (simp_all add: zn_point_dl CURVE_ORDER_def)
  from conjunct2 [OF results]
  obtain rA rG C1 B1 v where
    c: "mult Zn (zn_point 3) \<lparr>private_key = 2\<rparr> = Inr rA" "pk_add Zn (zn_point 12) rA = Inr C1"
      "pubkey Zn \<lparr>private_key = 2\<rparr> = Inr rG" "pk_add Zn (zn_point 4) rG = Inr B1"
      "alice_verify_dleq Zn B1 C1 \<lparr>private_key = 4\<rparr> \<lparr>private_key = 19\<rparr> (zn_point 3) = Inr v"
      "v \<longrightarrow> carol_verify_dleq Zn ''secret'' \<lparr>private_key = 2\<rparr> (zn_point 12) \<lparr>private_key = 4\<rparr>
             \<lparr>private_key = 19\<rparr> (zn_point 3) = Some (Inr True)"
    unfolding zn_secret sum.case Let_def dls
    by (simp add: CURVE_ORDER_def) (fastforce split: if_split_asm)
  from c(1) have rA: "rA = zn_point 6" by (simp add: steps)
  from c(2) have C1: "C1 = zn_point 18" by (simp add: rA steps)
  from c(3) have rG: "rG = zn_point 2" by (simp add: steps)
  from c(4) have B1: "B1 = zn_point 6" by (simp add: rG steps)
  from c(5) have "v" by (simp add: B1 C1 alice)
  with c(6) alice show ?thesis by simp
qed

text \<open>
  As stated for every structurally valid input the claim fails: with
  \<open>B' = C' = A = G\<close> and \<open>e = s = 1\<close> the difference \<open>s*G - e*A\<close> is the point at
  infinity and \<^verbatim>\<open>alice_verify_dleq\<close> throws.
\<close>

theorem dleq_verification_counterexample:
  "alice_verify_dleq Zn (zn_point 1) (zn_point 1) \<lparr>private_key = 1\<rparr> \<lparr>private_key = 1\<rparr> (zn_point 1)
     = Inl (Runtime_error ''Failed to combine public keys'')"
  by (simp add: alice_verify_dleq_def and_then_def zn_ops CURVE_ORDER_def)

end
